theory Spec2Isabelle
  imports Main
begin

section \<open>The ledger: decryption requests of AgeVerifierWithNFT\<close>

text \<open>
  Solidity values: an \<open>address\<close> and a \<open>uint256\<close> are natural numbers (\<open>address(0)\<close> is
  \<open>0\<close>); checked arithmetic of Solidity 0.8 is written out as a \<open>Panic_overflow\<close>
  branch wherever the source adds. A Solidity \<open>mapping\<close> is a total function whose
  default is the zero value. A \<open>require\<close> that fails is \<open>Inl (Revert msg)\<close> and leaves
  the state as it was. \<open>retryCount\<close> is a \<open>uint8\<close>; its one increment sits behind the
  guard \<open>retryCount < MAX_RETRIES\<close>, so it cannot overflow.
\<close>

type_synonym address = nat
type_synonym uint256 = nat

datatype revert = Revert string | Panic_overflow

datatype event =
    VerificationRequested address uint256
  | VerificationResult address bool
  | NFTCredentialMinted address uint256
  | DecryptionRequested uint256 address uint256
  | DecryptionCompleted uint256 bool
  | DecryptionRetrying uint256 uint256 nat
  | CredentialMinted address uint256 uint256
  | Transfer address address uint256

record DecryptionRequest =
  requester :: address
  timestamp :: uint256
  retryCount :: nat
  processed :: bool

type_synonym euint32 = nat

record verifier_state =
  nftContract :: address
  isVerified :: "address \<Rightarrow> bool"
  userEncryptedAges :: "address \<Rightarrow> euint32"
  decryptionRequests :: "uint256 \<Rightarrow> DecryptionRequest"
  requestIdToUser :: "uint256 \<Rightarrow> address"
  userToRequestId :: "address \<Rightarrow> uint256"

definition REQUEST_TIMEOUT :: uint256 where
  "REQUEST_TIMEOUT = 30 * 60"

definition MAX_RETRIES :: nat where
  "MAX_RETRIES = 3"

definition no_request :: DecryptionRequest where
  "no_request = \<lparr>requester = 0, timestamp = 0, retryCount = 0, processed = False\<rparr>"

definition initial_verifier :: verifier_state where
  "initial_verifier =
     \<lparr>nftContract = 0, isVerified = (\<lambda>_. False), userEncryptedAges = (\<lambda>_. 0),
      decryptionRequests = (\<lambda>_. no_request),
      requestIdToUser = (\<lambda>_. 0), userToRequestId = (\<lambda>_. 0)\<rparr>"

text \<open>
  The FHE library is not part of the repository; what it hands back is a parameter.
  An encrypted value is its handle (\<open>euint32\<close>, a number). In \<open>verifyAge\<close>, \<open>age\<close>
  is the handle \<open>FHE.fromExternal\<close> returns when it accepts the input proof
  (\<open>None\<close> when it rejects it), and \<open>gatewayId\<close> is the request id
  \<open>FHE.requestDecryption\<close> returns.
\<close>

definition verifyAge ::
  "verifier_state \<Rightarrow> uint256 \<Rightarrow> address \<Rightarrow> euint32 option \<Rightarrow> uint256
     \<Rightarrow> revert + (event list \<times> verifier_state)" where
  "verifyAge s block_timestamp sender fromExternal gatewayId =
     (case fromExternal of
        None \<Rightarrow> Inl (Revert ''Invalid input proof'')
      | Some age \<Rightarrow>
        let s0 = s\<lparr>userEncryptedAges := (userEncryptedAges s)(sender := age)\<rparr>;
            requestId = gatewayId;
            s1 = s0\<lparr>decryptionRequests := (decryptionRequests s0)
                    (requestId := \<lparr>requester = sender, timestamp = block_timestamp,
                                   retryCount = 0, processed = False\<rparr>)\<rparr>;
            s2 = s1\<lparr>requestIdToUser := (requestIdToUser s1)(requestId := sender)\<rparr>;
            s3 = s2\<lparr>userToRequestId := (userToRequestId s2)(sender := requestId)\<rparr>
        in Inr ([VerificationRequested sender requestId,
                 DecryptionRequested requestId sender block_timestamp], s3))"

text \<open>
  \<open>retryDecryption\<close>, guard by guard in the order of the source. \<open>request\<close> is a
  storage reference: the increment is written to the old record first, the new record
  then reads the incremented counter back from storage.
\<close>

definition retryDecryption ::
  "verifier_state \<Rightarrow> uint256 \<Rightarrow> address \<Rightarrow> uint256 \<Rightarrow> uint256
     \<Rightarrow> revert + (uint256 \<times> event list \<times> verifier_state)" where
  "retryDecryption s block_timestamp sender requestId gatewayId =
     (let request = decryptionRequests s requestId;
          user = requestIdToUser s requestId
      in
      if user = 0 then Inl (Revert ''Invalid request'')
      else if sender \<noteq> user then Inl (Revert ''Only requester can retry'')
      else if processed request then Inl (Revert ''Request already processed'')
      else if \<not> retryCount request < MAX_RETRIES then Inl (Revert ''Max retries exceeded'')
      else if \<not> timestamp request + 5 * 60 < 2 ^ 256 then Inl Panic_overflow
      else if \<not> block_timestamp > timestamp request + 5 * 60
        then Inl (Revert ''Too soon to retry'')
      else if \<not> timestamp request + REQUEST_TIMEOUT < 2 ^ 256 then Inl Panic_overflow
      else if \<not> block_timestamp \<le> timestamp request + REQUEST_TIMEOUT
        then Inl (Revert ''Request expired'')
      else if userToRequestId s user = 0 then Inl (Revert ''No encrypted age found'')
      else
        let newRequestId = gatewayId;
            s1 = s\<lparr>decryptionRequests := (decryptionRequests s)
                    (requestId := request\<lparr>retryCount := retryCount request + 1\<rparr>)\<rparr>;
            s2 = s1\<lparr>decryptionRequests := (decryptionRequests s1)
                    (newRequestId :=
                       \<lparr>requester = user, timestamp = block_timestamp,
                        retryCount = retryCount (decryptionRequests s1 requestId),
                        processed = False\<rparr>)\<rparr>;
            s3 = s2\<lparr>requestIdToUser := (requestIdToUser s2)(newRequestId := user)\<rparr>;
            s4 = s3\<lparr>userToRequestId := (userToRequestId s3)(user := newRequestId)\<rparr>
        in Inr (newRequestId,
                [DecryptionRetrying requestId newRequestId
                   (retryCount (decryptionRequests s4 requestId)),
                 DecryptionRequested newRequestId user block_timestamp],
                s4))"

record RequestStatus =
  st_exists :: bool
  st_processed :: bool
  st_retryCount :: nat
  st_expired :: bool
  st_timestamp :: uint256

definition getRequestStatus ::
  "verifier_state \<Rightarrow> uint256 \<Rightarrow> uint256 \<Rightarrow> revert + RequestStatus" where
  "getRequestStatus s block_timestamp requestId =
     (let request = decryptionRequests s requestId in
      if \<not> timestamp request > 0
        then Inr \<lparr>st_exists = False, st_processed = False, st_retryCount = 0,
                  st_expired = True, st_timestamp = 0\<rparr>
      else if \<not> timestamp request + REQUEST_TIMEOUT < 2 ^ 256 then Inl Panic_overflow
      else Inr \<lparr>st_exists = True, st_processed = processed request,
                st_retryCount = retryCount request,
                st_expired = (block_timestamp > timestamp request + REQUEST_TIMEOUT),
                st_timestamp = timestamp request\<rparr>)"

subsection \<open>The client's retry check (checkAndRetryDecryption)\<close>

text \<open>
  The client reads the ledger at block time \<open>t_read\<close> and, when it decides to retry,
  its transaction is mined at block time \<open>t_tx\<close>, signed by \<open>signer\<close>. A reverted
  read or transaction throws, and the \<open>catch\<close> around the whole body returns \<open>null\<close>
  (\<open>None\<close>); a call lost to the network ends in the same \<open>catch\<close> and is not modelled
  apart. The result also lists the retry transactions the client sent, and the ledger
  state afterwards.
\<close>

datatype client_call = SentRetryDecryption uint256

fun is_DecryptionRetrying :: "event \<Rightarrow> bool" where
  "is_DecryptionRetrying (DecryptionRetrying _ _ _) = True"
| "is_DecryptionRetrying _ = False"

definition checkAndRetryDecryption ::
  "verifier_state \<Rightarrow> uint256 \<Rightarrow> uint256 \<Rightarrow> address \<Rightarrow> uint256 \<Rightarrow> address
     \<Rightarrow> uint256 option \<times> client_call list \<times> verifier_state" where
  "checkAndRetryDecryption s t_read t_tx signer gatewayId userAddress =
     (let requestId = userToRequestId s userAddress in
      if requestId = 0 then (None, [], s)
      else
        case getRequestStatus s t_read requestId of
          Inl _ \<Rightarrow> (None, [], s)
        | Inr status \<Rightarrow>
            if st_processed status then (None, [], s)
            else if st_expired status \<and> st_retryCount status < 3 then
              (case retryDecryption s t_tx signer requestId gatewayId of
                 Inl _ \<Rightarrow> (None, [SentRetryDecryption requestId], s)
               | Inr (_, logs, s') \<Rightarrow>
                   (case find is_DecryptionRetrying logs of
                      Some (DecryptionRetrying _ newRequestId _) \<Rightarrow>
                        (Some newRequestId, [SentRetryDecryption requestId], s')
                    | _ \<Rightarrow> (Some requestId, [SentRetryDecryption requestId], s')))
            else (Some requestId, [], s))"

text \<open>
  What the application shows after \<open>checkAndRetryDecryption\<close> (App.tsx, the
  \<open>catch\<close> of the decryption wait): a truthy result is reported as a submitted retry,
  \<open>null\<close> (or the falsy \<open>0n\<close>) as a timeout to be checked by hand.
\<close>

datatype ui_status = RetrySubmittedPleaseWait | TimeoutCheckManually

definition retry_status_shown :: "uint256 option \<Rightarrow> ui_status" where
  "retry_status_shown newRequestId =
     (case newRequestId of
        None \<Rightarrow> TimeoutCheckManually
      | Some n \<Rightarrow> if n \<noteq> 0 then RetrySubmittedPleaseWait else TimeoutCheckManually)"

text \<open>
  Chains of retries. \<open>lineage n s rid s' rid'\<close>: from state \<open>s\<close>, \<open>n\<close> successful retries
  lead from request \<open>rid\<close> to request \<open>rid'\<close> in state \<open>s'\<close>, each retry acting on the
  request the previous one minted. Between two retries of the chain the ledger may
  record other submissions and other retries, as long as the id the oracle assigns
  to them is not the current head of the chain (oracle ids are not reused).
\<close>

inductive lineage ::
  "nat \<Rightarrow> verifier_state \<Rightarrow> uint256 \<Rightarrow> verifier_state \<Rightarrow> uint256 \<Rightarrow> bool" where
  lineage_start: "lineage 0 s rid s rid"
| lineage_retry:
    "lineage n s rid s1 rid1 \<Longrightarrow>
     retryDecryption s1 t sender rid1 gid = Inr (rid2, logs, s2) \<Longrightarrow>
     lineage (Suc n) s rid s2 rid2"
| lineage_other_submission:
    "lineage n s rid s1 rid1 \<Longrightarrow>
     verifyAge s1 t sender age gid = Inr (logs, s2) \<Longrightarrow> gid \<noteq> rid1 \<Longrightarrow>
     lineage n s rid s2 rid1"
| lineage_other_retry:
    "lineage n s rid s1 rid1 \<Longrightarrow>
     retryDecryption s1 t sender other gid = Inr (rid2, logs, s2) \<Longrightarrow> gid \<noteq> rid1 \<Longrightarrow>
     lineage n s rid s2 rid1"

subsection \<open>Ledger states of the scenarios\<close>

text \<open>
  \<open>submitted_state\<close>: user 7 has submitted one verification at block time 1000, which
  the oracle numbered 5. \<open>retried_state\<close>: the same user has retried it at block time
  1400 (request 6), \<open>retried_twice_state\<close>: and again at 1800 (request 8).
  \<open>exhausted_state\<close>: after a third retry at 2200 (request 9), the current request 9
  has used all its retries.
\<close>

definition submitted_state :: verifier_state where
  "submitted_state =
     \<lparr>nftContract = 0, isVerified = (\<lambda>_. False), userEncryptedAges = (\<lambda>_. 0)(7 := 42),
      decryptionRequests = (\<lambda>_. no_request)
        (5 := \<lparr>requester = 7, timestamp = 1000, retryCount = 0, processed = False\<rparr>),
      requestIdToUser = (\<lambda>_. 0)(5 := 7),
      userToRequestId = (\<lambda>_. 0)(7 := 5)\<rparr>"

definition retried_state :: verifier_state where
  "retried_state =
     \<lparr>nftContract = 0, isVerified = (\<lambda>_. False), userEncryptedAges = (\<lambda>_. 0)(7 := 42),
      decryptionRequests = (\<lambda>_. no_request)
        (5 := \<lparr>requester = 7, timestamp = 1000, retryCount = 1, processed = False\<rparr>,
         6 := \<lparr>requester = 7, timestamp = 1400, retryCount = 1, processed = False\<rparr>),
      requestIdToUser = (\<lambda>_. 0)(5 := 7, 6 := 7),
      userToRequestId = (\<lambda>_. 0)(7 := 6)\<rparr>"

definition retried_twice_state :: verifier_state where
  "retried_twice_state =
     \<lparr>nftContract = 0, isVerified = (\<lambda>_. False), userEncryptedAges = (\<lambda>_. 0)(7 := 42),
      decryptionRequests = (\<lambda>_. no_request)
        (5 := \<lparr>requester = 7, timestamp = 1000, retryCount = 1, processed = False\<rparr>,
         6 := \<lparr>requester = 7, timestamp = 1400, retryCount = 2, processed = False\<rparr>,
         8 := \<lparr>requester = 7, timestamp = 1800, retryCount = 2, processed = False\<rparr>),
      requestIdToUser = (\<lambda>_. 0)(5 := 7, 6 := 7, 8 := 7),
      userToRequestId = (\<lambda>_. 0)(7 := 8)\<rparr>"

definition exhausted_state :: verifier_state where
  "exhausted_state =
     \<lparr>nftContract = 0, isVerified = (\<lambda>_. False), userEncryptedAges = (\<lambda>_. 0)(7 := 42),
      decryptionRequests = (\<lambda>_. no_request)
        (5 := \<lparr>requester = 7, timestamp = 1000, retryCount = 1, processed = False\<rparr>,
         6 := \<lparr>requester = 7, timestamp = 1400, retryCount = 2, processed = False\<rparr>,
         8 := \<lparr>requester = 7, timestamp = 1800, retryCount = 3, processed = False\<rparr>,
         9 := \<lparr>requester = 7, timestamp = 2200, retryCount = 3, processed = False\<rparr>),
      requestIdToUser = (\<lambda>_. 0)(5 := 7, 6 := 7, 8 := 7, 9 := 7),
      userToRequestId = (\<lambda>_. 0)(7 := 9)\<rparr>"

section \<open>The credential token: AgeCredentialNFT and the minting path\<close>

text \<open>
  The token contract (the simplified version the verifier imports) on top of the
  inherited ERC721 storage: \<open>owners\<close> and \<open>balances\<close> are the \<open>_owners\<close> and
  \<open>_balances\<close> mappings of the OpenZeppelin base contract. \<open>world\<close> holds the two
  contracts with their addresses.
\<close>

record nft_state =
  tokenIdCounter :: uint256
  encryptedAges :: "uint256 \<Rightarrow> euint32"
  addressToTokenId :: "address \<Rightarrow> uint256"
  mintTimestamp :: "uint256 \<Rightarrow> uint256"
  authorizedMinters :: "address \<Rightarrow> bool"
  owners :: "uint256 \<Rightarrow> address"
  balances :: "address \<Rightarrow> uint256"

record world =
  verifier_address :: address
  nft_address :: address
  ver :: verifier_state
  nft :: nft_state

text \<open>
  \<open>_safeMint\<close> of the base contract mints and then, when the recipient is a contract,
  calls the recipient's \<open>onERC721Received\<close> and reverts unless it accepts. That call
  runs the recipient's code in the middle of \<open>mintCredential\<close>: it is the parameter
  \<open>hook\<close>, a transformer of the world that may itself call the contracts. An
  externally owned account, or a contract that just accepts, is \<open>accepts\<close>.
\<close>

type_synonym receiver_hook = "world \<Rightarrow> revert + (event list \<times> world)"

definition accepts :: receiver_hook where
  "accepts w = Inr ([], w)"

definition hasCredential :: "nft_state \<Rightarrow> address \<Rightarrow> bool" where
  "hasCredential n account = (addressToTokenId n account \<noteq> 0)"

text \<open>
  \<open>_update\<close>: the soulbound override of the repository, then the base contract's
  bookkeeping (called from \<open>_mint\<close> with no authorisation check).
\<close>

definition update_token ::
  "nft_state \<Rightarrow> address \<Rightarrow> uint256 \<Rightarrow> revert + (address \<times> event list \<times> nft_state)" where
  "update_token n to tokenId =
     (let from = owners n tokenId in
      if from \<noteq> 0 \<and> to \<noteq> 0 then Inl (Revert ''Soulbound: cannot transfer'')
      else
        let n1 = (if from \<noteq> 0
                  then n\<lparr>balances := (balances n)(from := balances n from - 1)\<rparr> else n);
            n2 = (if to \<noteq> 0
                  then n1\<lparr>balances := (balances n1)(to := balances n1 to + 1)\<rparr> else n1);
            n3 = n2\<lparr>owners := (owners n2)(tokenId := to)\<rparr>
        in Inr (from, [Transfer from to tokenId], n3))"

definition mint_token ::
  "nft_state \<Rightarrow> address \<Rightarrow> uint256 \<Rightarrow> revert + (event list \<times> nft_state)" where
  "mint_token n to tokenId =
     (if to = 0 then Inl (Revert ''ERC721InvalidReceiver'')
      else
        case update_token n to tokenId of
          Inl e \<Rightarrow> Inl e
        | Inr (previousOwner, logs, n') \<Rightarrow>
            if previousOwner \<noteq> 0 then Inl (Revert ''ERC721InvalidSender'')
            else Inr (logs, n'))"

definition safeMint ::
  "receiver_hook \<Rightarrow> world \<Rightarrow> address \<Rightarrow> uint256 \<Rightarrow> revert + (event list \<times> world)" where
  "safeMint hook w to tokenId =
     (case mint_token (nft w) to tokenId of
        Inl e \<Rightarrow> Inl e
      | Inr (logs, n') \<Rightarrow>
          (case hook (w\<lparr>nft := n'\<rparr>) of
             Inl e \<Rightarrow> Inl e
           | Inr (logs', w') \<Rightarrow> Inr (logs @ logs', w')))"

definition mintCredential ::
  "receiver_hook \<Rightarrow> world \<Rightarrow> uint256 \<Rightarrow> address \<Rightarrow> address \<Rightarrow> euint32
     \<Rightarrow> revert + (uint256 \<times> event list \<times> world)" where
  "mintCredential hook w block_timestamp sender to encryptedAge =
     (if \<not> authorizedMinters (nft w) sender then Inl (Revert ''Not authorized'')
      else if addressToTokenId (nft w) to \<noteq> 0 then Inl (Revert ''Already has credential'')
      else if \<not> tokenIdCounter (nft w) + 1 < 2 ^ 256 then Inl Panic_overflow
      else
        let tokenId = tokenIdCounter (nft w);
            w1 = w\<lparr>nft := (nft w)\<lparr>tokenIdCounter := tokenIdCounter (nft w) + 1\<rparr>\<rparr>
        in
        case safeMint hook w1 to tokenId of
          Inl e \<Rightarrow> Inl e
        | Inr (logs, w2) \<Rightarrow>
            let n2 = nft w2;
                n3 = n2\<lparr>encryptedAges := (encryptedAges n2)(tokenId := encryptedAge)\<rparr>;
                n4 = n3\<lparr>addressToTokenId := (addressToTokenId n3)(to := tokenId)\<rparr>;
                n5 = n4\<lparr>mintTimestamp := (mintTimestamp n4)(tokenId := block_timestamp)\<rparr>
            in Inr (tokenId, logs @ [CredentialMinted to tokenId block_timestamp],
                    w2\<lparr>nft := n5\<rparr>))"

text \<open>
  The verifier's side. A call through \<open>nftContract\<close> reaches the token contract of the
  world when \<open>nftContract\<close> is its address; a call to any other address reverts
  (there is no such contract in the world).
\<close>

definition mintNFTCredential ::
  "receiver_hook \<Rightarrow> world \<Rightarrow> uint256 \<Rightarrow> address \<Rightarrow> revert + (event list \<times> world)" where
  "mintNFTCredential hook w block_timestamp user =
     (if nftContract (ver w) \<noteq> nft_address w then Inl (Revert ''no contract at nftContract'')
      else if hasCredential (nft w) user then Inr ([], w)
      else
        let userAge = userEncryptedAges (ver w) user in
        case mintCredential hook w block_timestamp (verifier_address w) user userAge of
          Inl e \<Rightarrow> Inl e
        | Inr (tokenId, logs, w') \<Rightarrow> Inr (logs @ [NFTCredentialMinted user tokenId], w'))"

text \<open>
  \<open>verifyAgeMock\<close>: \<open>encryptedAge\<close> is the handle \<open>FHE.asEuint32(age)\<close> returns.
\<close>

definition verifyAgeMock ::
  "receiver_hook \<Rightarrow> world \<Rightarrow> uint256 \<Rightarrow> address \<Rightarrow> nat \<Rightarrow> euint32
     \<Rightarrow> revert + (event list \<times> world)" where
  "verifyAgeMock hook w block_timestamp sender age encryptedAge =
     (let result = (age \<ge> 18);
          v1 = (ver w)\<lparr>isVerified := (isVerified (ver w))(sender := result)\<rparr>;
          v2 = v1\<lparr>userEncryptedAges := (userEncryptedAges v1)(sender := encryptedAge)\<rparr>;
          w1 = w\<lparr>ver := v2\<rparr>
      in
      if result \<and> nftContract (ver w1) \<noteq> 0 then
        (case mintNFTCredential hook w1 block_timestamp sender of
           Inl e \<Rightarrow> Inl e
         | Inr (logs, w2) \<Rightarrow> Inr (VerificationResult sender result # logs, w2))
      else Inr ([VerificationResult sender result], w1))"

text \<open>
  \<open>callbackDecryption\<close>: \<open>signaturesOk\<close> says whether \<open>FHE.checkSignatures\<close> accepts
  the oracle's proof, \<open>decryptedResult\<close> is the decoded cleartext.
\<close>

definition callbackDecryption ::
  "receiver_hook \<Rightarrow> world \<Rightarrow> uint256 \<Rightarrow> uint256 \<Rightarrow> bool \<Rightarrow> bool
     \<Rightarrow> revert + (event list \<times> world)" where
  "callbackDecryption hook w block_timestamp requestId signaturesOk decryptedResult =
     (let request = decryptionRequests (ver w) requestId in
      if \<not> timestamp request > 0 then Inl (Revert ''Invalid request ID'')
      else if processed request then Inl (Revert ''Request already processed'')
      else if \<not> timestamp request + REQUEST_TIMEOUT < 2 ^ 256 then Inl Panic_overflow
      else if \<not> block_timestamp \<le> timestamp request + REQUEST_TIMEOUT
        then Inl (Revert ''Request expired'')
      else if \<not> signaturesOk then Inl (Revert ''Invalid decryption proof'')
      else
        let user = requestIdToUser (ver w) requestId in
        if user = 0 then Inl (Revert ''Invalid user'')
        else
          let v1 = (ver w)\<lparr>isVerified := (isVerified (ver w))(user := decryptedResult)\<rparr>;
              v2 = v1\<lparr>decryptionRequests := (decryptionRequests v1)
                      (requestId := (decryptionRequests v1 requestId)\<lparr>processed := True\<rparr>)\<rparr>;
              w1 = w\<lparr>ver := v2\<rparr>;
              logs = [DecryptionCompleted requestId decryptedResult,
                      VerificationResult user decryptedResult]
          in
          if decryptedResult \<and> nftContract (ver w1) \<noteq> 0 then
            (case mintNFTCredential hook w1 block_timestamp user of
               Inl e \<Rightarrow> Inl e
             | Inr (logs', w2) \<Rightarrow> Inr (logs @ logs', w2))
          else Inr (logs, w1))"

definition mintNFTManual ::
  "receiver_hook \<Rightarrow> world \<Rightarrow> uint256 \<Rightarrow> address \<Rightarrow> revert + (event list \<times> world)" where
  "mintNFTManual hook w block_timestamp sender =
     (if \<not> isVerified (ver w) sender then Inl (Revert ''Not verified yet'')
      else if nftContract (ver w) \<noteq> nft_address w then Inl (Revert ''no contract at nftContract'')
      else if hasCredential (nft w) sender then Inl (Revert ''Already has credential'')
      else mintNFTCredential hook w block_timestamp sender)"

text \<open>
  A freshly deployed pair of contracts: the verifier at address 100 with the token
  contract at address 200 configured and authorised as minter, the token counter at 1
  as the constructor sets it.
\<close>

definition deployed :: world where
  "deployed =
     \<lparr>verifier_address = 100, nft_address = 200,
      ver = initial_verifier\<lparr>nftContract := 200\<rparr>,
      nft = \<lparr>tokenIdCounter = 1, encryptedAges = (\<lambda>_. 0), addressToTokenId = (\<lambda>_. 0),
             mintTimestamp = (\<lambda>_. 0), authorizedMinters = (\<lambda>_. False)(100 := True),
             owners = (\<lambda>_. 0), balances = (\<lambda>_. 0)\<rparr>\<rparr>"

text \<open>
  A recipient contract whose \<open>onERC721Received\<close> calls \<open>verifyAgeMock\<close> again (once:
  the nested mint is accepted) before it accepts the token.
\<close>

definition reenters_verifyAgeMock ::
  "uint256 \<Rightarrow> address \<Rightarrow> nat \<Rightarrow> euint32 \<Rightarrow> receiver_hook" where
  "reenters_verifyAgeMock block_timestamp self age encryptedAge w =
     verifyAgeMock accepts w block_timestamp self age encryptedAge"

text \<open>
  The token contract's bookkeeping is consistent, with at most one token per address:
  every token that has an owner was issued (it is below the counter, and not 0) and is
  the one the index records for its owner, and the balance of an address is 1 when it
  owns a token and 0 otherwise.
\<close>

definition one_credential_each :: "nft_state \<Rightarrow> bool" where
  "one_credential_each n =
     (1 \<le> tokenIdCounter n \<and>
      (\<forall>t. owners n t \<noteq> 0 \<longrightarrow>
           t \<noteq> 0 \<and> t < tokenIdCounter n \<and> addressToTokenId n (owners n t) = t) \<and>
      (\<forall>a. a \<noteq> 0 \<longrightarrow> balances n a = (if \<exists>t. owners n t = a then 1 else 0)))"

section \<open>The client: read fan-out, finality polling, backoff, oracle polling\<close>

text \<open>
  The client functions are asynchronous and effectful. Each is modelled as a function
  that returns the list of its effects, in order, together with its result: \<open>Inr\<close> a
  value for a promise that resolves, \<open>Inl\<close> an error for one that rejects. What the
  network answers is a parameter. Counts and delays are natural numbers (the source's
  \<open>number\<close>s are used as counts). Callbacks (\<open>onProgress\<close>, \<open>onRetry\<close>) are recorded as
  effects and are taken to return normally.

  The messages of the errors the client creates are Chinese text in the source; each is
  a constructor here: \<open>AllRpcCallsFailed\<close> ("all RPC calls failed"),
  \<open>AllPublicRpcUnavailable\<close> ("no public RPC is available"),
  \<open>ConfirmationTimeout n\<close> ("transaction confirmation timed out (n attempts, ...)"),
  \<open>GatewayDecryptTimeout n i\<close> ("Gateway decryption timed out (n attempts, n * i / 1000
  seconds)"), \<open>CallbackWaitTimeout\<close> ("timed out waiting for the callback - check the
  contract state or retry"). \<open>Thrown m\<close> is an error some callee threw, with its
  message; \<open>ThrownUndefined\<close> is \<open>throw\<close> of a variable never assigned.
\<close>

datatype client_error =
    AllRpcCallsFailed
  | AllPublicRpcUnavailable
  | ConfirmationTimeout nat
  | GatewayDecryptTimeout nat nat
  | CallbackWaitTimeout
  | Thrown string
  | ThrownUndefined

datatype effect =
    RpcCall string
  | RpcFailedWarning string string
  | RpcSucceededLog
  | ProbeBlockNumber string
  | RpcUnavailableWarning string
  | GetTransactionReceipt string nat
  | PollFailedWarning nat string
  | ConfirmedLog uint256
  | SendTransaction
  | CallFn nat
  | RetryWarning nat nat nat string
  | OnRetry nat string
  | Progress nat nat
  | GatewayFetch nat
  | NotReadyLog nat nat
  | BadStatusWarning nat
  | DecryptedLog nat
  | ReadLedger nat
  | LedgerReadWarning string
  | CallbackDoneLog
  | VerifiedUpdatedLog
  | Sleep nat

definition and_then :: "effect list \<Rightarrow> effect list \<times> 'a \<Rightarrow> effect list \<times> 'a" where
  "and_then es r = (es @ fst r, snd r)"

subsection \<open>safeContractCall\<close>

definition publicnode_rpc :: string where
  "publicnode_rpc = ''https://ethereum-sepolia-rpc.publicnode.com''"

definition ankr_rpc :: string where
  "ankr_rpc = ''https://rpc.ankr.com/eth_sepolia''"

definition blastapi_rpc :: string where
  "blastapi_rpc = ''https://eth-sepolia.public.blastapi.io''"

definition FALLBACK_RPCS :: "string list" where
  "FALLBACK_RPCS = [publicnode_rpc, ankr_rpc, blastapi_rpc]"

text \<open>
  \<open>call url data\<close> is what \<open>provider.call\<close> does on that endpoint (\<open>Inl\<close> the message of
  the error it throws), \<open>decode result\<close> is \<open>iface.decodeFunctionResult(...)[0]\<close>
  (\<open>Inl\<close> when decoding throws). The loop over the endpoints is
  \<open>safeContractCall_from\<close>; encoding the call happens before the loop, outside the
  \<open>try\<close>, so an encoding error rejects at once.
\<close>

fun safeContractCall_from ::
  "(string \<Rightarrow> 'd \<Rightarrow> string + 'r) \<Rightarrow> ('r \<Rightarrow> string + 'v) \<Rightarrow> 'd \<Rightarrow> string list
     \<Rightarrow> effect list \<times> (client_error + 'v)" where
  "safeContractCall_from call decode data [] = ([], Inl AllRpcCallsFailed)"
| "safeContractCall_from call decode data (rpcUrl # rest) =
     (case call rpcUrl data of
        Inl message \<Rightarrow>
          and_then [RpcCall rpcUrl, RpcFailedWarning rpcUrl message]
            (safeContractCall_from call decode data rest)
      | Inr result \<Rightarrow>
          (case decode result of
             Inl message \<Rightarrow>
               and_then [RpcCall rpcUrl, RpcFailedWarning rpcUrl message]
                 (safeContractCall_from call decode data rest)
           | Inr decoded0 \<Rightarrow> ([RpcCall rpcUrl, RpcSucceededLog], Inr decoded0)))"

definition safeContractCall ::
  "(string \<Rightarrow> 'd \<Rightarrow> string + 'r) \<Rightarrow> ('r \<Rightarrow> string + 'v) \<Rightarrow> string + 'd
     \<Rightarrow> effect list \<times> (client_error + 'v)" where
  "safeContractCall call decode encodeFunctionData =
     (case encodeFunctionData of
        Inl message \<Rightarrow> ([], Inl (Thrown message))
      | Inr data \<Rightarrow> safeContractCall_from call decode data FALLBACK_RPCS)"

text \<open>An endpoint fails for a call when the call throws or its result does not decode.\<close>

definition endpoint_fails ::
  "(string \<Rightarrow> 'd \<Rightarrow> string + 'r) \<Rightarrow> ('r \<Rightarrow> string + 'v) \<Rightarrow> 'd \<Rightarrow> string \<Rightarrow> bool" where
  "endpoint_fails call decode data rpcUrl =
     (case call rpcUrl data of
        Inl _ \<Rightarrow> True
      | Inr result \<Rightarrow> (case decode result of Inl _ \<Rightarrow> True | Inr _ \<Rightarrow> False))"

subsection \<open>waitForTransactionWithPublicRpc\<close>

record receipt =
  blockNumber :: uint256
  status :: nat

text \<open>
  Choosing the provider: \<open>provider\<close> is assigned before the endpoint is probed with
  \<open>getBlockNumber\<close>, so after a failed probe the variable keeps the failed endpoint
  while the loop goes on. \<open>alive url\<close> says whether the probe of \<open>url\<close> succeeds.
\<close>

fun choose_provider ::
  "(string \<Rightarrow> bool) \<Rightarrow> string option \<Rightarrow> string list \<Rightarrow> effect list \<times> string option" where
  "choose_provider alive provider [] = ([], provider)"
| "choose_provider alive provider (rpcUrl # rest) =
     (if alive rpcUrl then ([ProbeBlockNumber rpcUrl], Some rpcUrl)
      else and_then [ProbeBlockNumber rpcUrl, RpcUnavailableWarning rpcUrl]
             (choose_provider alive (Some rpcUrl) rest))"

text \<open>
  The endpoint the loop above leaves in \<open>provider\<close>, said directly: the first of the
  list whose probe succeeds, and the last of the list when no probe does.
\<close>

definition first_live_or_last :: "(string \<Rightarrow> bool) \<Rightarrow> string list \<Rightarrow> string" where
  "first_live_or_last alive urls =
     (case find alive urls of Some u \<Rightarrow> u | None \<Rightarrow> last urls)"

text \<open>
  The polling loop. \<open>getTransactionReceipt url i\<close> is the answer to the \<open>i\<close>-th poll:
  \<open>Inl\<close> when it throws, \<open>Inr None\<close> for \<open>null\<close>, \<open>Inr (Some r)\<close> for a receipt.
  A block number is truthy when it is not 0.
\<close>

function poll_receipt ::
  "(string \<Rightarrow> nat \<Rightarrow> string + receipt option) \<Rightarrow> string \<Rightarrow> nat \<Rightarrow> nat
     \<Rightarrow> effect list \<times> (client_error + receipt)" where
  "poll_receipt getTransactionReceipt provider maxAttempts i =
     (if i < maxAttempts then
        (case getTransactionReceipt provider i of
           Inl message \<Rightarrow>
             and_then [GetTransactionReceipt provider i, PollFailedWarning (i + 1) message,
                       Sleep 2000]
               (poll_receipt getTransactionReceipt provider maxAttempts (i + 1))
         | Inr None \<Rightarrow>
             and_then [GetTransactionReceipt provider i, Sleep 2000]
               (poll_receipt getTransactionReceipt provider maxAttempts (i + 1))
         | Inr (Some r) \<Rightarrow>
             if blockNumber r \<noteq> 0
             then ([GetTransactionReceipt provider i, ConfirmedLog (blockNumber r)], Inr r)
             else and_then [GetTransactionReceipt provider i, Sleep 2000]
                    (poll_receipt getTransactionReceipt provider maxAttempts (i + 1)))
      else ([], Inl (ConfirmationTimeout maxAttempts)))"
  by pat_completeness auto
termination
  by (relation "measure (\<lambda>(g, p, maxAttempts, i). maxAttempts - i)") auto

declare poll_receipt.simps [simp del]

definition waitForTransactionWithPublicRpc ::
  "(string \<Rightarrow> bool) \<Rightarrow> (string \<Rightarrow> nat \<Rightarrow> string + receipt option) \<Rightarrow> nat option
     \<Rightarrow> effect list \<times> (client_error + receipt)" where
  "waitForTransactionWithPublicRpc alive getTransactionReceipt maxAttempts_opt =
     (let maxAttempts = (case maxAttempts_opt of None \<Rightarrow> 60 | Some n \<Rightarrow> n);
          chosen = choose_provider alive None FALLBACK_RPCS
      in
      case snd chosen of
        None \<Rightarrow> (fst chosen, Inl AllPublicRpcUnavailable)
      | Some provider \<Rightarrow>
          and_then (fst chosen) (poll_receipt getTransactionReceipt provider maxAttempts 0))"

fun is_poll_or_wait :: "effect \<Rightarrow> bool" where
  "is_poll_or_wait (ProbeBlockNumber _) = True"
| "is_poll_or_wait (RpcUnavailableWarning _) = True"
| "is_poll_or_wait (GetTransactionReceipt _ _) = True"
| "is_poll_or_wait (PollFailedWarning _ _) = True"
| "is_poll_or_wait (ConfirmedLog _) = True"
| "is_poll_or_wait (Sleep _) = True"
| "is_poll_or_wait _ = False"

fun is_receipt_poll :: "effect \<Rightarrow> bool" where
  "is_receipt_poll (GetTransactionReceipt _ _) = True"
| "is_receipt_poll _ = False"

fun is_sleep :: "effect \<Rightarrow> bool" where
  "is_sleep (Sleep _) = True"
| "is_sleep _ = False"

subsection \<open>retryWithBackoff\<close>

text \<open>
  \<open>fn attempt\<close> is the outcome of the call of \<open>fn\<close> made in iteration \<open>attempt\<close>
  (counted from 0): \<open>Inr\<close> its value, \<open>Inl\<close> the message of the error it throws.
  \<open>lastError\<close> is \<open>None\<close> until an error has been caught. The options default to
  \<open>maxRetries = 3\<close> and \<open>retryDelay = 5000\<close>.
\<close>

record RetryOptions =
  maxRetries :: "nat option"
  retryDelay :: "nat option"
  onRetry :: bool

function retryWithBackoff_loop ::
  "(nat \<Rightarrow> string + 'a) \<Rightarrow> nat \<Rightarrow> nat \<Rightarrow> bool \<Rightarrow> string option \<Rightarrow> nat
     \<Rightarrow> effect list \<times> (client_error + 'a)" where
  "retryWithBackoff_loop fn maxRetries_v retryDelay_v onRetry_v lastError attempt =
     (if attempt \<le> maxRetries_v then
        (case fn attempt of
           Inr v \<Rightarrow> ([CallFn attempt], Inr v)
         | Inl message \<Rightarrow>
             if attempt < maxRetries_v then
               let delay = retryDelay_v * 2 ^ attempt in
               and_then
                 ([CallFn attempt, RetryWarning (attempt + 1) (maxRetries_v + 1) delay message]
                  @ (if onRetry_v then [OnRetry (attempt + 1) message] else [])
                  @ [Sleep delay])
                 (retryWithBackoff_loop fn maxRetries_v retryDelay_v onRetry_v
                    (Some message) (attempt + 1))
             else
               and_then [CallFn attempt]
                 (retryWithBackoff_loop fn maxRetries_v retryDelay_v onRetry_v
                    (Some message) (attempt + 1)))
      else
        ([], Inl (case lastError of None \<Rightarrow> ThrownUndefined | Some message \<Rightarrow> Thrown message)))"
  by pat_completeness auto
termination
  by (relation "measure (\<lambda>(f, maxRetries_v, d, c, l, attempt). Suc maxRetries_v - attempt)") auto

declare retryWithBackoff_loop.simps [simp del]

definition retryWithBackoff ::
  "(nat \<Rightarrow> string + 'a) \<Rightarrow> RetryOptions \<Rightarrow> effect list \<times> (client_error + 'a)" where
  "retryWithBackoff fn options =
     (let maxRetries_v = (case maxRetries options of None \<Rightarrow> 3 | Some n \<Rightarrow> n);
          retryDelay_v = (case retryDelay options of None \<Rightarrow> 5000 | Some n \<Rightarrow> n)
      in retryWithBackoff_loop fn maxRetries_v retryDelay_v (onRetry options) None 0)"

definition default_options :: RetryOptions where
  "default_options = \<lparr>maxRetries = None, retryDelay = None, onRetry = False\<rparr>"

fun is_CallFn :: "effect \<Rightarrow> bool" where
  "is_CallFn (CallFn _) = True"
| "is_CallFn _ = False"

fun sleeps :: "effect list \<Rightarrow> nat list" where
  "sleeps [] = []"
| "sleeps (Sleep ms # es) = ms # sleeps es"
| "sleeps (_ # es) = sleeps es"

subsection \<open>RelayerClient.pollDecryption\<close>

text \<open>
  \<open>fetch attempt\<close> is the oracle's answer to the request of that attempt (counted from
  1): a network error, or a response with its HTTP status and, for \<open>response.json()\<close>,
  the parsed body (\<open>Inl\<close> the error when parsing throws). \<open>response.ok\<close> is a status from 200 to
  299. The options default to \<open>maxAttempts = 60\<close> and \<open>interval = 5000\<close>. The
  percentage handed to \<open>onProgress\<close> is a rounded floating-point quotient; the effect
  records the attempt and the total it is computed from.
\<close>

datatype 'j response = NetworkError string | HttpResponse nat "string + 'j"

record 'j PollResult =
  success :: bool
  data :: 'j
  attempts :: nat

record PollOptions =
  maxAttempts :: "nat option"
  interval :: "nat option"
  onProgress :: bool

definition response_ok :: "nat \<Rightarrow> bool" where
  "response_ok st = (200 \<le> st \<and> st \<le> 299)"

text \<open>The body of the \<open>try\<close>: \<open>Inr\<close> the value returned, \<open>Inl\<close> to go on.\<close>

definition poll_attempt ::
  "'j response \<Rightarrow> bool \<Rightarrow> nat \<Rightarrow> nat \<Rightarrow> effect list \<times> (unit + 'j PollResult)" where
  "poll_attempt answer onProgress_v maxAttempts_v attempt =
     and_then ((if onProgress_v then [Progress attempt maxAttempts_v] else [])
               @ [GatewayFetch attempt])
       (case answer of
          NetworkError message \<Rightarrow> ([PollFailedWarning attempt message], Inl ())
        | HttpResponse st body \<Rightarrow>
            if response_ok st then
              (case body of
                 Inl message \<Rightarrow> ([PollFailedWarning attempt message], Inl ())
               | Inr d \<Rightarrow>
                   ([DecryptedLog attempt],
                    Inr \<lparr>success = True, data = d, attempts = attempt\<rparr>))
            else if st = 404 then ([NotReadyLog attempt maxAttempts_v], Inl ())
            else ([BadStatusWarning st], Inl ()))"

function pollDecryption_loop ::
  "(nat \<Rightarrow> 'j response) \<Rightarrow> bool \<Rightarrow> nat \<Rightarrow> nat \<Rightarrow> nat
     \<Rightarrow> effect list \<times> (client_error + 'j PollResult)" where
  "pollDecryption_loop fetch onProgress_v maxAttempts_v interval_v attempt =
     (if attempt \<le> maxAttempts_v then
        (case poll_attempt (fetch attempt) onProgress_v maxAttempts_v attempt of
           (es, Inr result) \<Rightarrow> (es, Inr result)
         | (es, Inl _) \<Rightarrow>
             and_then (es @ (if attempt < maxAttempts_v then [Sleep interval_v] else []))
               (pollDecryption_loop fetch onProgress_v maxAttempts_v interval_v (attempt + 1)))
      else ([], Inl (GatewayDecryptTimeout maxAttempts_v interval_v)))"
  by pat_completeness auto
termination
  by (relation "measure (\<lambda>(f, p, maxAttempts_v, i, attempt). Suc maxAttempts_v - attempt)") auto

declare pollDecryption_loop.simps [simp del]

definition pollDecryption ::
  "(nat \<Rightarrow> 'j response) \<Rightarrow> PollOptions \<Rightarrow> effect list \<times> (client_error + 'j PollResult)" where
  "pollDecryption fetch options =
     (let maxAttempts_v = (case maxAttempts options of None \<Rightarrow> 60 | Some n \<Rightarrow> n);
          interval_v = (case interval options of None \<Rightarrow> 5000 | Some n \<Rightarrow> n)
      in pollDecryption_loop fetch (onProgress options) maxAttempts_v interval_v 1)"

text \<open>An answer that is no 2xx response: 404, another status, or a network error.\<close>

fun not_2xx :: "'j response \<Rightarrow> bool" where
  "not_2xx (NetworkError _) = True"
| "not_2xx (HttpResponse st _) = (\<not> response_ok st)"

fun is_GatewayFetch :: "effect \<Rightarrow> bool" where
  "is_GatewayFetch (GatewayFetch _) = True"
| "is_GatewayFetch _ = False"

subsection \<open>waitForCallbackCompletion (the useDecryption hook)\<close>

text \<open>
  \<open>ledger i\<close> is what the reads of iteration \<open>i\<close> see: the ledger state, or \<open>Inl\<close> when a
  read throws. A value read from the contract is a JavaScript value; \<open>isVerified\<close>
  yields a boolean, and the source tests it with \<open>!== undefined\<close>.
\<close>

datatype js_value = JUndefined | JBool bool

definition MAX_WAIT :: nat where
  "MAX_WAIT = 120"

definition INTERVAL :: nat where
  "INTERVAL = 2000"

function waitForCallbackCompletion_loop ::
  "(nat \<Rightarrow> string + verifier_state) \<Rightarrow> address \<Rightarrow> nat \<Rightarrow> effect list \<times> (client_error + unit)"
  where
  "waitForCallbackCompletion_loop ledger userAddress i =
     (if i < MAX_WAIT then
        (case ledger i of
           Inl message \<Rightarrow>
             and_then [Progress i MAX_WAIT, ReadLedger i, LedgerReadWarning message,
                       Sleep INTERVAL]
               (waitForCallbackCompletion_loop ledger userAddress (i + 1))
         | Inr s \<Rightarrow>
             let verified = JBool (isVerified s userAddress);
                 requestId = userToRequestId s userAddress
             in
             if requestId \<noteq> 0 \<and> processed (decryptionRequests s requestId)
               then ([Progress i MAX_WAIT, ReadLedger i, CallbackDoneLog], Inr ())
             else if verified \<noteq> JUndefined
               then ([Progress i MAX_WAIT, ReadLedger i, VerifiedUpdatedLog], Inr ())
             else
               and_then [Progress i MAX_WAIT, ReadLedger i, Sleep INTERVAL]
                 (waitForCallbackCompletion_loop ledger userAddress (i + 1)))
      else ([], Inl CallbackWaitTimeout))"
  by pat_completeness auto
termination
  by (relation "measure (\<lambda>(l, u, i). MAX_WAIT - i)") auto

declare waitForCallbackCompletion_loop.simps [simp del]

definition waitForCallbackCompletion ::
  "(nat \<Rightarrow> string + verifier_state) \<Rightarrow> address \<Rightarrow> effect list \<times> (client_error + unit)" where
  "waitForCallbackCompletion ledger userAddress =
     waitForCallbackCompletion_loop ledger userAddress 0"

text \<open>The ledger indicates completion for a subject.\<close>

definition indicates_completion :: "verifier_state \<Rightarrow> address \<Rightarrow> bool" where
  "indicates_completion s userAddress =
     (isVerified s userAddress \<or>
      processed (decryptionRequests s (userToRequestId s userAddress)))"

subsection \<open>Inputs of the client scenarios\<close>

text \<open>
  An oracle that never completes: not ready on the first attempt, a server error on
  the second, unreachable from then on. Read endpoints of which only the last one
  answers, and read endpoints that all throw.
\<close>

definition flaky_oracle :: "nat \<Rightarrow> unit response" where
  "flaky_oracle attempt =
     (if attempt = 1 then HttpResponse 404 (Inl ''no body'')
      else if attempt = 2 then HttpResponse 500 (Inl ''no body'')
      else NetworkError ''Failed to fetch'')"

definition only_last_endpoint_answers :: "string \<Rightarrow> string \<Rightarrow> string + string" where
  "only_last_endpoint_answers rpcUrl d =
     (if rpcUrl = blastapi_rpc then Inr ''0x01'' else Inl ''connection refused'')"

definition every_endpoint_throws :: "string \<Rightarrow> string \<Rightarrow> string \<Rightarrow> string + string" where
  "every_endpoint_throws message rpcUrl d = Inl message"

text \<open>
  Finality polling with the first endpoint down: the second endpoint either never has
  a receipt, or has the receipt of a mined transaction on the third poll (the second
  poll times out in both cases).
\<close>

definition first_endpoint_down :: "string \<Rightarrow> bool" where
  "first_endpoint_down rpcUrl = (rpcUrl \<noteq> publicnode_rpc)"

definition mined_receipt :: receipt where
  "mined_receipt = \<lparr>blockNumber = 9700000, status = 1\<rparr>"

definition never_a_receipt :: "string \<Rightarrow> nat \<Rightarrow> string + receipt option" where
  "never_a_receipt rpcUrl i = (if i = 1 then Inl ''timeout'' else Inr None)"

definition receipt_on_third_poll :: "string \<Rightarrow> nat \<Rightarrow> string + receipt option" where
  "receipt_on_third_poll rpcUrl i =
     (if rpcUrl = ankr_rpc \<and> i = 2 then Inr (Some mined_receipt)
      else if i = 1 then Inl ''timeout'' else Inr None)"

section \<open>Properties\<close>

subsection \<open>Shared lemmas\<close>

lemma fst_and_then [simp]: "fst (and_then es r) = es @ fst r"
  by (simp add: and_then_def)

lemma snd_and_then [simp]: "snd (and_then es r) = snd r"
  by (simp add: and_then_def)

lemma sleeps_append [simp]: "sleeps (xs @ ys) = sleeps xs @ sleeps ys"
  by (induction xs rule: sleeps.induct) auto

lemmas scenario_defs =
  submitted_state_def retried_state_def retried_twice_state_def exhausted_state_def
  initial_verifier_def no_request_def REQUEST_TIMEOUT_def MAX_RETRIES_def

text \<open>The scenario states are states the ledger reaches.\<close>

lemma submitted_state_reached:
  "verifyAge initial_verifier 1000 7 (Some 42) 5 =
     Inr ([VerificationRequested 7 5, DecryptionRequested 5 7 1000], submitted_state)"
  by (simp add: verifyAge_def scenario_defs)

lemma retried_state_reached:
  "retryDecryption submitted_state 1400 7 5 6 =
     Inr (6, [DecryptionRetrying 5 6 1, DecryptionRequested 6 7 1400], retried_state)"
  by (simp add: retryDecryption_def scenario_defs)

lemma retried_twice_state_reached:
  "retryDecryption retried_state 1800 7 6 8 =
     Inr (8, [DecryptionRetrying 6 8 2, DecryptionRequested 8 7 1800], retried_twice_state)"
  by (simp add: retryDecryption_def scenario_defs numeral_2_eq_2[symmetric])

lemma exhausted_state_reached:
  "retryDecryption retried_twice_state 2200 7 8 9 =
     Inr (9, [DecryptionRetrying 8 9 3, DecryptionRequested 9 7 2200], exhausted_state)"
  by (simp add: retryDecryption_def scenario_defs)

text \<open>What a successful retry does, and when a retry succeeds.\<close>

lemma retryDecryption_success:
  assumes "retryDecryption s t sender rid gid = Inr (rid', logs, s')"
  shows "rid' = gid"
    and "retryCount (decryptionRequests s' rid') = retryCount (decryptionRequests s rid) + 1"
    and "retryCount (decryptionRequests s' rid) = retryCount (decryptionRequests s rid) + 1"
    and "logs = [DecryptionRetrying rid rid' (retryCount (decryptionRequests s rid) + 1),
                 DecryptionRequested rid' sender t]"
    and "userToRequestId s' sender = rid'"
    and "requestIdToUser s' rid' = sender"
    and "\<And>i. i \<noteq> rid \<Longrightarrow> i \<noteq> gid \<Longrightarrow> decryptionRequests s' i = decryptionRequests s i"
  using assms
  by (auto simp add: retryDecryption_def Let_def split: if_splits)

lemma retryDecryption_in_window:
  assumes "requestIdToUser s rid = sender" and "sender \<noteq> 0"
    and "\<not> processed (decryptionRequests s rid)"
    and "retryCount (decryptionRequests s rid) < MAX_RETRIES"
    and "timestamp (decryptionRequests s rid) + 5 * 60 < t"
    and "t \<le> timestamp (decryptionRequests s rid) + REQUEST_TIMEOUT"
    and "timestamp (decryptionRequests s rid) + REQUEST_TIMEOUT < 2 ^ 256"
    and "userToRequestId s sender \<noteq> 0"
  shows "\<exists>logs s'. retryDecryption s t sender rid gid = Inr (gid, logs, s')"
  using assms
  by (auto simp add: retryDecryption_def Let_def REQUEST_TIMEOUT_def)

lemma retryDecryption_expired_reverts:
  "timestamp (decryptionRequests s rid) + REQUEST_TIMEOUT < t \<Longrightarrow>
   \<exists>e. retryDecryption s t sender rid gid = Inl e"
  by (simp add: retryDecryption_def Let_def)

text \<open>
  The client only sends a retry for a request the ledger reports as expired, which is
  when the ledger rejects it: for a request that exists, whatever the time of the read
  and the later time of the transaction, the client never obtains a new request and
  the ledger stays as it is.
\<close>

lemma client_retry_never_succeeds:
  assumes "t_read \<le> t_tx"
    and "0 < timestamp (decryptionRequests s (userToRequestId s u))"
  shows "\<exists>r calls. checkAndRetryDecryption s t_read t_tx signer gid u = (r, calls, s)
           \<and> (r = None \<or> r = Some (userToRequestId s u))"
  using assms
  by (auto simp add: checkAndRetryDecryption_def getRequestStatus_def retryDecryption_def Let_def
      split: if_splits sum.splits)

lemma verifyAge_other_requests:
  "verifyAge s t sender age gid = Inr (logs, s') \<Longrightarrow> i \<noteq> gid \<Longrightarrow>
   decryptionRequests s' i = decryptionRequests s i"
  by (auto simp: verifyAge_def Let_def split: option.splits)

lemma lineage_retryCount:
  "lineage n s rid s' rid' \<Longrightarrow>
   retryCount (decryptionRequests s rid) + n \<le> retryCount (decryptionRequests s' rid')"
proof (induction rule: lineage.induct)
  case (lineage_start s rid)
  then show ?case by simp
next
  case (lineage_retry n s rid s1 rid1 t sender gid rid2 logs s2)
  then show ?case using retryDecryption_success(2)[OF lineage_retry(2)] by simp
next
  case (lineage_other_submission n s rid s1 rid1 t sender age gid logs s2)
  then show ?case using verifyAge_other_requests[OF lineage_other_submission(2), of rid1] by simp
next
  case (lineage_other_retry n s rid s1 rid1 t sender other gid rid2 logs s2)
  show ?case
  proof (cases "rid1 = other")
    case True
    then show ?thesis
      using lineage_other_retry retryDecryption_success(3)[OF lineage_other_retry(2)] by simp
  next
    case False
    then show ?thesis
      using lineage_other_retry retryDecryption_success(7)[OF lineage_other_retry(2), of rid1]
      by simp
  qed
qed

subsection \<open>Retrying a request (claims C1, C4, C5)\<close>

text \<open>
  Claim C1: a request that exists, is unprocessed, was created more than
  \<open>REQUEST_TIMEOUT\<close> (30 minutes) ago, has \<open>retryCount < MAX_RETRIES\<close> and is past the
  5-minute cool-down can be retried: \<open>retryDecryption\<close> returns a new request id and
  records the successor. The ledger does the opposite. In the scenario of the
  specification (the request of user 7, 40 minutes old, never retried), the retry signed
  by the requester reverts with "Request expired", and the client, which sends the
  retry because the request is reported as expired, gets \<open>null\<close> with the ledger
  unchanged.
\<close>

theorem retry_of_expired_request_reverts:
  "retryDecryption submitted_state (1000 + 40 * 60) 7 5 6 = Inl (Revert ''Request expired'')
   \<and> checkAndRetryDecryption submitted_state (1000 + 40 * 60) (1000 + 40 * 60) 7 6 7
       = (None, [SentRetryDecryption 5], submitted_state)"
  by (simp add: retryDecryption_def checkAndRetryDecryption_def getRequestStatus_def
      scenario_defs)

text \<open>
  Claim C4: in every retry performed by \<open>retryDecryption\<close> the successor's
  \<open>retryCount\<close> is the predecessor's \<open>retryCount\<close> (as it stood when the retry was made)
  plus one, which is also the count the \<open>DecryptionRetrying\<close> event carries and the
  count written back to the predecessor; and along a lineage of \<open>n\<close> retries the
  count of the last request is at least the count the first one started with plus
  \<open>n\<close>: it never decreases and is never reset to zero.
\<close>

theorem retry_count_carried_forward:
  "(retryDecryption s t sender rid gid = Inr (rid', logs, s') \<longrightarrow>
      retryCount (decryptionRequests s' rid') = retryCount (decryptionRequests s rid) + 1
      \<and> retryCount (decryptionRequests s' rid) = retryCount (decryptionRequests s rid) + 1
      \<and> hd logs = DecryptionRetrying rid rid' (retryCount (decryptionRequests s rid) + 1))
   \<and> (lineage n s0 rid0 s1 rid1 \<longrightarrow>
        retryCount (decryptionRequests s0 rid0) + n \<le> retryCount (decryptionRequests s1 rid1))"
proof (intro conjI impI)
  assume r: "retryDecryption s t sender rid gid = Inr (rid', logs, s')"
  show "retryCount (decryptionRequests s' rid') = retryCount (decryptionRequests s rid) + 1"
    by (rule retryDecryption_success(2)[OF r])
  show "retryCount (decryptionRequests s' rid) = retryCount (decryptionRequests s rid) + 1"
    by (rule retryDecryption_success(3)[OF r])
  show "hd logs = DecryptionRetrying rid rid' (retryCount (decryptionRequests s rid) + 1)"
    using retryDecryption_success(4)[OF r] by simp
next
  assume "lineage n s0 rid0 s1 rid1"
  then show "retryCount (decryptionRequests s0 rid0) + n
               \<le> retryCount (decryptionRequests s1 rid1)"
    by (rule lineage_retryCount)
qed

theorem retry_count_carried_forward_witness:
  "retryCount (decryptionRequests retried_state 6)
     = retryCount (decryptionRequests submitted_state 5) + 1
   \<and> retryCount (decryptionRequests retried_state 5)
     = retryCount (decryptionRequests submitted_state 5) + 1
   \<and> retryCount (decryptionRequests submitted_state 5) + 3
     \<le> retryCount (decryptionRequests exhausted_state 9)"
proof -
  have l1: "lineage 1 submitted_state 5 retried_state 6"
    using lineage_retry[OF lineage_start retried_state_reached] by simp
  have l2: "lineage 2 submitted_state 5 retried_twice_state 8"
    using lineage_retry[OF l1 retried_twice_state_reached] by (simp add: numeral_2_eq_2)
  have l3: "lineage 3 submitted_state 5 exhausted_state 9"
    using lineage_retry[OF l2 exhausted_state_reached] by (simp add: numeral_3_eq_3)
  show ?thesis
    using retry_count_carried_forward
            [of submitted_state 1400 7 5 6 6
                "[DecryptionRetrying 5 6 1, DecryptionRequested 6 7 1400]" retried_state
                3 submitted_state 5 exhausted_state 9]
          retried_state_reached l3
    by blast
qed

text \<open>
  Two parts of claim C5 hold in the code. \<open>retryDecryption\<close> reverts whenever the
  request's \<open>retryCount\<close> has reached \<open>MAX_RETRIES\<close>; and for a subject whose current
  request exists (with an expiry time that fits in 256 bits) and has reached it,
  \<open>checkAndRetryDecryption\<close> sends no retry and leaves the ledger unchanged: it returns
  \<open>null\<close> when the request is processed and the id of that same request otherwise.
\<close>

lemma retry_never_sent_when_exhausted:
  assumes "MAX_RETRIES \<le> retryCount (decryptionRequests s rid)"
  shows "(\<exists>e. retryDecryption s t sender rid gid = Inl e)
    \<and> (userToRequestId s u = rid \<and> rid \<noteq> 0 \<and> 0 < timestamp (decryptionRequests s rid)
        \<and> timestamp (decryptionRequests s rid) + REQUEST_TIMEOUT < 2 ^ 256 \<longrightarrow>
        checkAndRetryDecryption s t_read t_tx signer gid u
          = (if processed (decryptionRequests s rid) then None else Some rid, [], s))"
  using assms
  by (auto simp add: checkAndRetryDecryption_def getRequestStatus_def retryDecryption_def
      Let_def MAX_RETRIES_def REQUEST_TIMEOUT_def split: if_splits sum.splits)

lemma retry_never_sent_when_exhausted_example:
  "(\<exists>e. retryDecryption exhausted_state 2600 7 9 10 = Inl e)
   \<and> checkAndRetryDecryption exhausted_state 5000 5012 7 10 7 = (Some 9, [], exhausted_state)"
proof -
  have h: "MAX_RETRIES \<le> retryCount (decryptionRequests exhausted_state 9)"
    by (simp add: scenario_defs)
  have g: "userToRequestId exhausted_state 7 = 9 \<and> (9::nat) \<noteq> 0
         \<and> 0 < timestamp (decryptionRequests exhausted_state 9)
         \<and> timestamp (decryptionRequests exhausted_state 9) + REQUEST_TIMEOUT < 2 ^ 256"
    by (simp add: scenario_defs)
  have p: "\<not> processed (decryptionRequests exhausted_state 9)"
    by (simp add: scenario_defs)
  show ?thesis
    using retry_never_sent_when_exhausted[OF h, of 2600 7 10 7 5000 5012 7] g p by simp
qed

text \<open>
  The application takes any truthy result of \<open>checkAndRetryDecryption\<close> for a new
  request, also when it is the id of the request that was already there: a request
  two minutes old, which is not retried either, is reported as a submitted retry too.
\<close>

lemma unchanged_request_reported_as_submitted:
  "checkAndRetryDecryption submitted_state (1000 + 2 * 60) (1000 + 2 * 60) 7 6 7
     = (Some 5, [], submitted_state)
   \<and> retry_status_shown (Some 5) = RetrySubmittedPleaseWait"
  by (simp add: retryDecryption_def checkAndRetryDecryption_def getRequestStatus_def
      scenario_defs retry_status_shown_def)

text \<open>
  Claim C5: the retry operation is never invoked on a request whose \<open>retryCount\<close> has
  reached \<open>MAX_RETRIES\<close> (3): \<open>retryDecryption\<close> reverts, the client's eligibility check
  does not call it, and the orchestrator reaches a terminal RetryExhausted/Failed
  outcome instead. The code misses the last part. For the exhausted request of user
  7, 40 minutes old, the client sends nothing and returns the id of that same request;
  the application has a terminal status for a wait that ended without a retry (the
  timeout to be checked by hand, shown for \<open>null\<close>), but it shows this result as
  "retry submitted, please wait".
\<close>

theorem retry_exhausted_reported_as_submitted:
  "checkAndRetryDecryption exhausted_state (2200 + 40 * 60) (2200 + 40 * 60) 7 10 7
     = (Some 9, [], exhausted_state)
   \<and> retry_status_shown
        (fst (checkAndRetryDecryption exhausted_state (2200 + 40 * 60) (2200 + 40 * 60) 7 10 7))
     = RetrySubmittedPleaseWait"
  by (simp add: retryDecryption_def checkAndRetryDecryption_def getRequestStatus_def
      scenario_defs retry_status_shown_def)

subsection \<open>Polling the oracle (claim C2)\<close>

lemma poll_attempt_not_2xx:
  "not_2xx answer \<Longrightarrow>
   \<exists>es. poll_attempt answer p n a = (es, Inl ())
        \<and> filter is_GatewayFetch es = [GatewayFetch a]"
  by (cases answer) (auto simp: poll_attempt_def and_then_def)

lemma pollDecryption_loop_exhausts:
  assumes "\<forall>k. a \<le> k \<and> k \<le> n \<longrightarrow> not_2xx (fetch k)"
  shows "snd (pollDecryption_loop fetch p n iv a) = Inl (GatewayDecryptTimeout n iv)
       \<and> filter is_GatewayFetch (fst (pollDecryption_loop fetch p n iv a))
           = map GatewayFetch [a..<Suc n]"
  using assms
proof (induction fetch p n iv a rule: pollDecryption_loop.induct)
  case (1 fetch p n iv a)
  show ?case
  proof (cases "a \<le> n")
    case False
    then show ?thesis by (simp add: pollDecryption_loop.simps)
  next
    case True
    then have "not_2xx (fetch a)" using "1.prems" by simp
    then obtain es where es: "poll_attempt (fetch a) p n a = (es, Inl ())"
      "filter is_GatewayFetch es = [GatewayFetch a]"
      using poll_attempt_not_2xx by blast
    have ih: "snd (pollDecryption_loop fetch p n iv (a + 1)) = Inl (GatewayDecryptTimeout n iv)
       \<and> filter is_GatewayFetch (fst (pollDecryption_loop fetch p n iv (a + 1)))
           = map GatewayFetch [a + 1..<Suc n]"
      using "1.IH"[OF True es(1)[symmetric] refl] "1.prems" by simp
    have up: "[a..<Suc n] = a # [a + 1..<Suc n]"
      using True by (simp add: upt_conv_Cons)
    show ?thesis
      using True es ih up by (subst (1 2) pollDecryption_loop.simps) simp
  qed
qed

text \<open>
  Claim C2: for every \<open>maxAttempts\<close> (1 or more; it also holds for 0), when no attempt
  gets a 2xx response (each gets 404, another status, or a network error),
  \<open>pollDecryption\<close> requests the oracle exactly \<open>maxAttempts\<close> times, attempts 1 to
  \<open>maxAttempts\<close> in order, and then rejects with the poll-timeout error that carries
  that number; no kind of failure on an earlier attempt ends the loop early.
\<close>

theorem poll_makes_exactly_maxAttempts_attempts:
  assumes "\<forall>k. 1 \<le> k \<and> k \<le> n \<longrightarrow> not_2xx (fetch k)"
    and "n = (case maxAttempts opts of None \<Rightarrow> 60 | Some m \<Rightarrow> m)"
    and "iv = (case interval opts of None \<Rightarrow> 5000 | Some m \<Rightarrow> m)"
  shows "snd (pollDecryption fetch opts) = Inl (GatewayDecryptTimeout n iv)
       \<and> filter is_GatewayFetch (fst (pollDecryption fetch opts)) = map GatewayFetch [1..<Suc n]"
  using pollDecryption_loop_exhausts[OF assms(1), of "onProgress opts" iv] assms(2,3)
  by (simp add: pollDecryption_def)

theorem poll_makes_exactly_maxAttempts_attempts_witness:
  "snd (pollDecryption flaky_oracle \<lparr>maxAttempts = Some 3, interval = Some 10, onProgress = True\<rparr>)
     = Inl (GatewayDecryptTimeout 3 10)
   \<and> filter is_GatewayFetch
       (fst (pollDecryption flaky_oracle
               \<lparr>maxAttempts = Some 3, interval = Some 10, onProgress = True\<rparr>))
     = [GatewayFetch 1, GatewayFetch 2, GatewayFetch 3]"
proof -
  have h: "\<forall>k. 1 \<le> k \<and> k \<le> 3 \<longrightarrow> not_2xx (flaky_oracle k)"
    by (simp add: flaky_oracle_def response_ok_def)
  have u: "[1..<Suc 3] = [1, 2, 3]"
    by (simp add: upt_rec)
  show ?thesis
    using poll_makes_exactly_maxAttempts_attempts
            [OF h, of "\<lparr>maxAttempts = Some 3, interval = Some 10, onProgress = True\<rparr>" 10] u
    by simp
qed

subsection \<open>Waiting for the callback (claim C3)\<close>

text \<open>
  The reconciler returns as soon as one round of reads succeeds, whatever was read.
\<close>

lemma callback_wait_returns_on_first_read:
  "ledger 0 = Inr s \<Longrightarrow> snd (waitForCallbackCompletion ledger u) = Inr ()"
  by (simp add: waitForCallbackCompletion_def waitForCallbackCompletion_loop.simps MAX_WAIT_def
      Let_def)

text \<open>
  It times out only when the reads of all 120 rounds throw, and has then slept 120
  times 2000 ms, which is 240 seconds.
\<close>

lemma callback_wait_loop_all_reads_fail:
  assumes "\<forall>k. i \<le> k \<and> k < MAX_WAIT \<longrightarrow> (\<exists>m. ledger k = Inl m)"
  shows "snd (waitForCallbackCompletion_loop ledger u i) = Inl CallbackWaitTimeout
       \<and> sleeps (fst (waitForCallbackCompletion_loop ledger u i))
           = replicate (MAX_WAIT - i) INTERVAL"
  using assms
proof (induction ledger u i rule: waitForCallbackCompletion_loop.induct)
  case (1 ledger u i)
  show ?case
  proof (cases "i < MAX_WAIT")
    case False
    then show ?thesis by (simp add: waitForCallbackCompletion_loop.simps)
  next
    case True
    then obtain m where m: "ledger i = Inl m" using "1.prems" by auto
    have prem': "\<forall>k. i + 1 \<le> k \<and> k < MAX_WAIT \<longrightarrow> (\<exists>m. ledger k = Inl m)"
      using "1.prems" by simp
    have rp: "replicate (MAX_WAIT - i) INTERVAL = INTERVAL # replicate (MAX_WAIT - (i + 1)) INTERVAL"
      using True by (cases "MAX_WAIT - i") auto
    show ?thesis
      using True m "1.IH"(1)[OF True m prem'] rp
      by (subst (1 2) waitForCallbackCompletion_loop.simps) simp
  qed
qed

lemma callback_wait_times_out_after_240_seconds:
  assumes "\<forall>k < MAX_WAIT. \<exists>m. ledger k = Inl m"
  shows "snd (waitForCallbackCompletion ledger u) = Inl CallbackWaitTimeout
       \<and> sum_list (sleeps (fst (waitForCallbackCompletion ledger u))) = 240000"
  using callback_wait_loop_all_reads_fail[of 0 ledger u] assms
  by (simp add: waitForCallbackCompletion_def sum_list_replicate MAX_WAIT_def INTERVAL_def)

text \<open>
  Claim C3: the callback reconciler returns normally only when the subject's
  verification flag or the request's processed flag indicates completion, and fails
  with the callback timeout when neither does within the bounded duration (120
  seconds, polled every 2 seconds). The code returns normally although neither flag
  indicates completion: with user 7 unverified and the request unprocessed, the first
  round of reads already ends the wait, because the test on the verification flag is
  \<open>isVerified !== undefined\<close> and the flag read from the ledger is a boolean.
\<close>

theorem callback_wait_returns_without_completion:
  "waitForCallbackCompletion (\<lambda>_. Inr submitted_state) 7
     = ([Progress 0 MAX_WAIT, ReadLedger 0, VerifiedUpdatedLog], Inr ())
   \<and> \<not> indicates_completion submitted_state 7"
  by (simp add: waitForCallbackCompletion_def waitForCallbackCompletion_loop.simps MAX_WAIT_def
      indicates_completion_def scenario_defs)

subsection \<open>Read fan-out (claims C6, C7)\<close>

lemma safeContractCall_from_fallback:
  assumes "\<forall>u \<in> set pre. endpoint_fails call decode d u"
    and "call k d = Inr r" and "decode r = Inr v"
  shows "snd (safeContractCall_from call decode d (pre @ k # post)) = Inr v"
  using assms
  by (induction pre) (auto simp: endpoint_fails_def split: sum.splits)

lemma safeContractCall_from_all_throw:
  assumes "\<forall>u \<in> set urls. call u d = Inl (err u)"
  shows "safeContractCall_from call decode d urls
           = (concat (map (\<lambda>u. [RpcCall u, RpcFailedWarning u (err u)]) urls),
              Inl AllRpcCallsFailed)"
  using assms
  by (induction urls) (auto simp: and_then_def)

text \<open>
  Claim C6: for every ordered list of read endpoints and every read call, if the
  endpoints before the \<open>k\<close>-th each fail and the \<open>k\<close>-th returns a result that decodes,
  the read call returns the \<open>k\<close>-th endpoint's decoded result, not an error. It holds
  for the loop on any list, and for \<open>safeContractCall\<close> on its configured list (the
  call having been encoded, which happens before any endpoint is tried).
\<close>

theorem read_falls_back_to_first_working_endpoint:
  assumes "\<forall>u \<in> set pre. endpoint_fails call decode d u"
    and "call k d = Inr r" and "decode r = Inr v"
  shows "snd (safeContractCall_from call decode d (pre @ k # post)) = Inr v
       \<and> (FALLBACK_RPCS = pre @ k # post \<longrightarrow>
            snd (safeContractCall call decode (Inr d)) = Inr v)"
proof (intro conjI impI)
  show a: "snd (safeContractCall_from call decode d (pre @ k # post)) = Inr v"
    by (rule safeContractCall_from_fallback[OF assms])
  assume "FALLBACK_RPCS = pre @ k # post"
  then show "snd (safeContractCall call decode (Inr d)) = Inr v"
    using a by (simp add: safeContractCall_def)
qed

theorem read_falls_back_to_first_working_endpoint_witness:
  "snd (safeContractCall only_last_endpoint_answers Inr (Inr ''0x70a08231'')) = Inr ''0x01''"
proof -
  have f: "\<forall>u \<in> set [publicnode_rpc, ankr_rpc].
             endpoint_fails only_last_endpoint_answers Inr ''0x70a08231'' u"
    by (simp add: endpoint_fails_def only_last_endpoint_answers_def
        publicnode_rpc_def ankr_rpc_def blastapi_rpc_def)
  have c: "only_last_endpoint_answers blastapi_rpc ''0x70a08231'' = Inr ''0x01''"
    by (simp add: only_last_endpoint_answers_def)
  have l: "FALLBACK_RPCS = [publicnode_rpc, ankr_rpc] @ blastapi_rpc # []"
    by (simp add: FALLBACK_RPCS_def)
  show ?thesis
    using read_falls_back_to_first_working_endpoint
            [of "[publicnode_rpc, ankr_rpc]" only_last_endpoint_answers Inr "''0x70a08231''"
                blastapi_rpc "''0x01''" "''0x01''" "[]"] f c l
    by simp
qed

text \<open>
  Claim C7: when each of the 3 configured read endpoints throws, \<open>safeContractCall\<close>
  rejects with an error that lists the 3 underlying errors. It does not: whatever the
  endpoints throw, the rejection is the same fixed error, so it cannot tell which
  errors occurred.
\<close>

theorem all_endpoints_error_carries_no_detail:
  "snd (safeContractCall (every_endpoint_throws ''timeout'') Inr (Inr ''0x70a08231''))
     = Inl AllRpcCallsFailed
   \<and> snd (safeContractCall (every_endpoint_throws ''rate limited'') Inr (Inr ''0x70a08231''))
     = Inl AllRpcCallsFailed"
  by (simp add: safeContractCall_def FALLBACK_RPCS_def every_endpoint_throws_def)

text \<open>
  Claim C7 as amended: when each of the 3 configured read endpoints throws,
  \<open>safeContractCall\<close> has tried the 3 endpoints in order, has written each underlying
  error to the console as a warning, and rejects with the one fixed error
  \<open>AllRpcCallsFailed\<close>, which carries none of them.
\<close>

theorem all_endpoints_fail_with_fixed_error:
  assumes "\<forall>u \<in> set FALLBACK_RPCS. call u d = Inl (err u)"
  shows "safeContractCall call decode (Inr d)
           = (concat (map (\<lambda>u. [RpcCall u, RpcFailedWarning u (err u)]) FALLBACK_RPCS),
              Inl AllRpcCallsFailed)"
  using safeContractCall_from_all_throw[of FALLBACK_RPCS call d err decode] assms
  by (simp add: safeContractCall_def)

theorem all_endpoints_fail_with_fixed_error_witness:
  "safeContractCall (every_endpoint_throws ''timeout'') Inr (Inr ''0x70a08231'')
     = ([RpcCall publicnode_rpc, RpcFailedWarning publicnode_rpc ''timeout'',
         RpcCall ankr_rpc, RpcFailedWarning ankr_rpc ''timeout'',
         RpcCall blastapi_rpc, RpcFailedWarning blastapi_rpc ''timeout''],
        Inl AllRpcCallsFailed)"
proof -
  have h: "\<forall>u \<in> set FALLBACK_RPCS.
             every_endpoint_throws ''timeout'' u ''0x70a08231'' = Inl ((\<lambda>_. ''timeout'') u)"
    by (simp add: every_endpoint_throws_def)
  show ?thesis
    using all_endpoints_fail_with_fixed_error
            [of "every_endpoint_throws ''timeout''" "''0x70a08231''" "\<lambda>_. ''timeout''" Inr] h
    by (simp add: FALLBACK_RPCS_def)
qed

subsection \<open>Transaction finality (claim C8)\<close>

lemma choose_provider_Some:
  "\<exists>p. snd (choose_provider alive (Some q) urls) = Some p"
  by (induction urls arbitrary: q) auto

lemma choose_provider_nonempty:
  "urls \<noteq> [] \<Longrightarrow> \<exists>p. snd (choose_provider alive prov urls) = Some p"
  using choose_provider_Some by (cases urls) auto

lemma choose_provider_effects:
  "list_all is_poll_or_wait (fst (choose_provider alive prov urls))
   \<and> filter is_receipt_poll (fst (choose_provider alive prov urls)) = []
   \<and> sleeps (fst (choose_provider alive prov urls)) = []"
  by (induction urls arbitrary: prov) auto

lemma poll_receipt_timeout:
  assumes "\<forall>k r. i \<le> k \<and> k < n \<and> get p k = Inr (Some r) \<longrightarrow> blockNumber r = 0"
  shows "snd (poll_receipt get p n i) = Inl (ConfirmationTimeout n)
     \<and> filter is_receipt_poll (fst (poll_receipt get p n i))
         = map (GetTransactionReceipt p) [i..<n]
     \<and> sleeps (fst (poll_receipt get p n i)) = replicate (n - i) 2000
     \<and> list_all is_poll_or_wait (fst (poll_receipt get p n i))"
  using assms
proof (induction get p n i rule: poll_receipt.induct)
  case (1 get p n i)
  show ?case
  proof (cases "i < n")
    case False
    then show ?thesis by (simp add: poll_receipt.simps)
  next
    case True
    have up: "[i..<n] = i # [i + 1..<n]"
      using True by (simp add: upt_conv_Cons)
    have rp: "replicate (n - i) (2000::nat) = 2000 # replicate (n - (i + 1)) 2000"
      using True by (cases "n - i") auto
    have prem': "\<forall>k r. i + 1 \<le> k \<and> k < n \<and> get p k = Inr (Some r) \<longrightarrow> blockNumber r = 0"
    proof (intro allI impI)
      fix k r assume "i + 1 \<le> k \<and> k < n \<and> get p k = Inr (Some r)"
      then have "i \<le> k \<and> k < n \<and> get p k = Inr (Some r)" by simp
      then show "blockNumber r = 0" using "1.prems" by blast
    qed
    show ?thesis
    proof (cases "get p i")
      case (Inl m)
      with True "1.IH"(1)[OF True Inl prem'] up rp show ?thesis
        by (subst (1 2 3 4) poll_receipt.simps) simp
    next
      case (Inr ro)
      show ?thesis
      proof (cases ro)
        case None
        with Inr True "1.IH"(2)[OF True Inr None prem'] up rp show ?thesis
          by (subst (1 2 3 4) poll_receipt.simps) simp
      next
        case (Some r)
        then have z: "blockNumber r = 0" using "1.prems" True Inr by auto
        then have nz: "\<not> blockNumber r \<noteq> 0" by simp
        from Some Inr True "1.IH"(3)[OF True Inr Some nz prem'] up rp z show ?thesis
          by (subst (1 2 3 4) poll_receipt.simps) simp
      qed
    qed
  qed
qed

lemma choose_provider_result:
  "snd (choose_provider alive prov urls)
     = (case find alive urls of
          Some u \<Rightarrow> Some u
        | None \<Rightarrow> (if urls = [] then prov else Some (last urls)))"
  by (induction urls arbitrary: prov) (auto split: option.splits)

lemma choose_provider_configured:
  "snd (choose_provider alive None FALLBACK_RPCS) = Some (first_live_or_last alive FALLBACK_RPCS)"
  by (simp add: choose_provider_result first_live_or_last_def FALLBACK_RPCS_def split: option.splits)

lemma first_live_or_last_member:
  "urls \<noteq> [] \<Longrightarrow> first_live_or_last alive urls \<in> set urls"
  by (auto simp: first_live_or_last_def find_Some_iff split: option.splits)

lemma poll_receipt_confirms:
  assumes "i \<le> j" and "j < n" and "get p j = Inr (Some r)" and "blockNumber r \<noteq> 0"
    and "\<forall>k r'. i \<le> k \<and> k < j \<and> get p k = Inr (Some r') \<longrightarrow> blockNumber r' = 0"
  shows "snd (poll_receipt get p n i) = Inr r
     \<and> filter is_receipt_poll (fst (poll_receipt get p n i))
         = map (GetTransactionReceipt p) [i..<Suc j]
     \<and> sleeps (fst (poll_receipt get p n i)) = replicate (j - i) 2000
     \<and> list_all is_poll_or_wait (fst (poll_receipt get p n i))"
  using assms
proof (induction get p n i rule: poll_receipt.induct)
  case (1 get p n i)
  have lt: "i < n" using "1.prems" by simp
  show ?case
  proof (cases "i = j")
    case True
    then show ?thesis
      using "1.prems" lt by (subst (1 2 3 4) poll_receipt.simps) simp
  next
    case False
    then have ij: "i < j" using "1.prems"(1) by simp
    have up: "[i..<Suc j] = i # [i + 1..<Suc j]"
      using ij by (simp add: upt_conv_Cons)
    have rp: "replicate (j - i) (2000::nat) = 2000 # replicate (j - (i + 1)) 2000"
      using ij by (cases "j - i") auto
    have le': "i + 1 \<le> j" using ij by simp
    have prem': "\<forall>k r'. i + 1 \<le> k \<and> k < j \<and> get p k = Inr (Some r') \<longrightarrow> blockNumber r' = 0"
    proof (intro allI impI)
      fix k r' assume "i + 1 \<le> k \<and> k < j \<and> get p k = Inr (Some r')"
      then have "i \<le> k \<and> k < j \<and> get p k = Inr (Some r')" by simp
      then show "blockNumber r' = 0" using "1.prems"(5) by blast
    qed
    show ?thesis
    proof (cases "get p i")
      case (Inl m)
      with lt "1.IH"(1)[OF lt Inl le' "1.prems"(2,3,4) prem'] up rp show ?thesis
        by (subst (1 2 3 4) poll_receipt.simps) simp
    next
      case (Inr ro)
      show ?thesis
      proof (cases ro)
        case None
        with Inr lt "1.IH"(2)[OF lt Inr None le' "1.prems"(2,3,4) prem'] up rp show ?thesis
          by (subst (1 2 3 4) poll_receipt.simps) simp
      next
        case (Some r0)
        then have z: "blockNumber r0 = 0" using "1.prems"(5) ij Inr by auto
        then have nz: "\<not> blockNumber r0 \<noteq> 0" by simp
        from Some Inr lt "1.IH"(3)[OF lt Inr Some nz le' "1.prems"(2,3,4) prem'] up rp z
        show ?thesis
          by (subst (1 2 3 4) poll_receipt.simps) simp
      qed
    qed
  qed
qed

text \<open>
  Claim C8: finality is determined by polling a public read endpoint for the
  transaction receipt every 2 seconds, up to \<open>maxAttempts\<close> times (60 by default).
  The endpoint \<open>p\<close> polled is one of the configured public endpoints: the first whose
  probe succeeds, or the last when none does. If no poll within the budget yields a
  receipt with a block number, \<open>waitForTransactionWithPublicRpc\<close> has polled \<open>p\<close>
  exactly \<open>maxAttempts\<close> times, slept 2000 ms after each poll, and rejects with the
  confirmation timeout. If poll \<open>j\<close> is the first to yield such a receipt, the wait
  ends there and returns that receipt, after polls 0 to \<open>j\<close> of \<open>p\<close> and \<open>j\<close> sleeps.
  Either way it only probes, polls and sleeps: it never sends the transaction again.
\<close>

theorem finality_determined_by_polling:
  assumes "n = (case m of None \<Rightarrow> 60 | Some n' \<Rightarrow> n')"
    and "p = first_live_or_last alive FALLBACK_RPCS"
    and "w = waitForTransactionWithPublicRpc alive get m"
  shows "p \<in> set FALLBACK_RPCS
     \<and> ((\<forall>k r. k < n \<and> get p k = Inr (Some r) \<longrightarrow> blockNumber r = 0) \<longrightarrow>
          snd w = Inl (ConfirmationTimeout n)
          \<and> filter is_receipt_poll (fst w) = map (GetTransactionReceipt p) [0..<n]
          \<and> sleeps (fst w) = replicate n 2000
          \<and> list_all is_poll_or_wait (fst w))
     \<and> (j < n \<and> get p j = Inr (Some r) \<and> blockNumber r \<noteq> 0
          \<and> (\<forall>k r'. k < j \<and> get p k = Inr (Some r') \<longrightarrow> blockNumber r' = 0) \<longrightarrow>
          snd w = Inr r
          \<and> filter is_receipt_poll (fst w) = map (GetTransactionReceipt p) [0..<Suc j]
          \<and> sleeps (fst w) = replicate j 2000
          \<and> list_all is_poll_or_wait (fst w))"
proof (intro conjI impI)
  show "p \<in> set FALLBACK_RPCS"
    using first_live_or_last_member[of FALLBACK_RPCS alive] assms(2)
    by (simp add: FALLBACK_RPCS_def)
next
  have w: "w = and_then (fst (choose_provider alive None FALLBACK_RPCS))
                 (poll_receipt get p n 0)"
    using choose_provider_configured[of alive] assms
    by (simp add: waitForTransactionWithPublicRpc_def Let_def)
  note ce = choose_provider_effects[of alive None FALLBACK_RPCS]
  {
    assume h: "\<forall>k r. k < n \<and> get p k = Inr (Some r) \<longrightarrow> blockNumber r = 0"
    then have a: "\<forall>k r. 0 \<le> k \<and> k < n \<and> get p k = Inr (Some r) \<longrightarrow> blockNumber r = 0"
      by blast
    note t = poll_receipt_timeout[of 0 n get p]
    show "snd w = Inl (ConfirmationTimeout n)" using t a w by simp
    show "filter is_receipt_poll (fst w) = map (GetTransactionReceipt p) [0..<n]"
      using t a w ce by simp
    show "sleeps (fst w) = replicate n 2000" using t a w ce by simp
    show "list_all is_poll_or_wait (fst w)" using t a w ce by simp
  }
  {
    assume h: "j < n \<and> get p j = Inr (Some r) \<and> blockNumber r \<noteq> 0
          \<and> (\<forall>k r'. k < j \<and> get p k = Inr (Some r') \<longrightarrow> blockNumber r' = 0)"
    then have a: "\<forall>k r'. 0 \<le> k \<and> k < j \<and> get p k = Inr (Some r') \<longrightarrow> blockNumber r' = 0"
      by blast
    have t: "snd (poll_receipt get p n 0) = Inr r
     \<and> filter is_receipt_poll (fst (poll_receipt get p n 0))
         = map (GetTransactionReceipt p) [0..<Suc j]
     \<and> sleeps (fst (poll_receipt get p n 0)) = replicate (j - 0) 2000
     \<and> list_all is_poll_or_wait (fst (poll_receipt get p n 0))"
      using poll_receipt_confirms[of 0 j n get p r] h a by blast
    show "snd w = Inr r" using t w by simp
    show "filter is_receipt_poll (fst w) = map (GetTransactionReceipt p) [0..<Suc j]"
      using t w ce by simp
    show "sleeps (fst w) = replicate j 2000" using t w ce by simp
    show "list_all is_poll_or_wait (fst w)" using t w ce by simp
  }
qed


theorem finality_determined_by_polling_witness:
  "ankr_rpc \<in> set FALLBACK_RPCS
   \<and> snd (waitForTransactionWithPublicRpc first_endpoint_down never_a_receipt (Some 3))
       = Inl (ConfirmationTimeout 3)
   \<and> filter is_receipt_poll
         (fst (waitForTransactionWithPublicRpc first_endpoint_down never_a_receipt (Some 3)))
       = [GetTransactionReceipt ankr_rpc 0, GetTransactionReceipt ankr_rpc 1,
          GetTransactionReceipt ankr_rpc 2]
   \<and> sleeps (fst (waitForTransactionWithPublicRpc first_endpoint_down never_a_receipt (Some 3)))
       = [2000, 2000, 2000]
   \<and> snd (waitForTransactionWithPublicRpc first_endpoint_down receipt_on_third_poll None)
       = Inr mined_receipt
   \<and> filter is_receipt_poll
         (fst (waitForTransactionWithPublicRpc first_endpoint_down receipt_on_third_poll None))
       = [GetTransactionReceipt ankr_rpc 0, GetTransactionReceipt ankr_rpc 1,
          GetTransactionReceipt ankr_rpc 2]
   \<and> sleeps (fst (waitForTransactionWithPublicRpc first_endpoint_down receipt_on_third_poll None))
       = [2000, 2000]"
proof -
  have ne: "ankr_rpc \<noteq> publicnode_rpc"
    by (simp add: ankr_rpc_def publicnode_rpc_def)
  have p: "ankr_rpc = first_live_or_last first_endpoint_down FALLBACK_RPCS"
    using ne by (simp add: first_live_or_last_def first_endpoint_down_def FALLBACK_RPCS_def)
  have never: "\<forall>k r. k < 3 \<and> never_a_receipt ankr_rpc k = Inr (Some r) \<longrightarrow> blockNumber r = 0"
    by (simp add: never_a_receipt_def)
  have third: "2 < (60::nat) \<and> receipt_on_third_poll ankr_rpc 2 = Inr (Some mined_receipt)
      \<and> blockNumber mined_receipt \<noteq> 0
      \<and> (\<forall>k r'. k < 2 \<and> receipt_on_third_poll ankr_rpc k = Inr (Some r') \<longrightarrow> blockNumber r' = 0)"
    by (simp add: receipt_on_third_poll_def mined_receipt_def)
  have u3: "[0..<3] = [0, 1, 2]" and us: "[0..<Suc 2] = [0, 1, 2]"
    by (simp_all add: upt_rec)
  have r3: "replicate 3 (2000::nat) = [2000, 2000, 2000]"
    and r2: "replicate 2 (2000::nat) = [2000, 2000]"
    by (simp_all add: numeral_3_eq_3 numeral_2_eq_2)
  have t: "ankr_rpc \<in> set FALLBACK_RPCS
     \<and> snd (waitForTransactionWithPublicRpc first_endpoint_down never_a_receipt (Some 3))
         = Inl (ConfirmationTimeout 3)
     \<and> filter is_receipt_poll
          (fst (waitForTransactionWithPublicRpc first_endpoint_down never_a_receipt (Some 3)))
         = map (GetTransactionReceipt ankr_rpc) [0..<3]
     \<and> sleeps (fst (waitForTransactionWithPublicRpc first_endpoint_down never_a_receipt (Some 3)))
         = replicate 3 2000"
    using finality_determined_by_polling
            [of 3 "Some 3" ankr_rpc first_endpoint_down _ never_a_receipt, OF _ p refl] never
    by simp
  have c: "snd (waitForTransactionWithPublicRpc first_endpoint_down receipt_on_third_poll None)
         = Inr mined_receipt
     \<and> filter is_receipt_poll
          (fst (waitForTransactionWithPublicRpc first_endpoint_down receipt_on_third_poll None))
         = map (GetTransactionReceipt ankr_rpc) [0..<Suc 2]
     \<and> sleeps (fst (waitForTransactionWithPublicRpc first_endpoint_down receipt_on_third_poll None))
         = replicate 2 2000"
    using finality_determined_by_polling
            [of 60 None ankr_rpc first_endpoint_down _ receipt_on_third_poll 2 mined_receipt,
             OF _ p refl] third
    by simp
  show ?thesis
    using t c unfolding u3 us r3 r2 by simp
qed

subsection \<open>Backoff (claim C9)\<close>

lemma retryWithBackoff_loop_all_fail:
  assumes "\<forall>k. a \<le> k \<and> k \<le> m \<longrightarrow> fn k = Inl (err k)" and "a \<le> m"
  shows "snd (retryWithBackoff_loop fn m d c l a) = Inl (Thrown (err m))
     \<and> filter is_CallFn (fst (retryWithBackoff_loop fn m d c l a)) = map CallFn [a..<Suc m]
     \<and> sleeps (fst (retryWithBackoff_loop fn m d c l a)) = map (\<lambda>k. d * 2 ^ k) [a..<m]"
  using assms
proof (induction fn m d c l a rule: retryWithBackoff_loop.induct)
  case (1 fn m d c l a)
  have fa: "fn a = Inl (err a)" using "1.prems" by simp
  have up: "[a..<Suc m] = a # [a + 1..<Suc m]"
    using "1.prems"(2) by (simp add: upt_conv_Cons)
  show ?case
  proof (cases "a < m")
    case True
    have prem': "\<forall>k. a + 1 \<le> k \<and> k \<le> m \<longrightarrow> fn k = Inl (err k)"
      using "1.prems"(1) by simp
    have up2: "[a..<m] = a # [a + 1..<m]"
      using True by (simp add: upt_conv_Cons)
    have ih: "snd (retryWithBackoff_loop fn m d c (Some (err a)) (a + 1)) = Inl (Thrown (err m))
     \<and> filter is_CallFn (fst (retryWithBackoff_loop fn m d c (Some (err a)) (a + 1)))
         = map CallFn [a + 1..<Suc m]
     \<and> sleeps (fst (retryWithBackoff_loop fn m d c (Some (err a)) (a + 1)))
         = map (\<lambda>k. d * 2 ^ k) [a + 1..<m]"
      using "1.IH"(1)[OF "1.prems"(2) fa True refl prem'] True by simp
    show ?thesis
      using True fa ih up up2 "1.prems"(2)
      by (subst (1 2 3) retryWithBackoff_loop.simps) (simp add: Let_def)
  next
    case False
    then have am: "a = m" using "1.prems"(2) by simp
    have last: "retryWithBackoff_loop fn m d c (Some (err a)) (a + 1)
                  = ([], Inl (Thrown (err a)))"
      using am by (subst retryWithBackoff_loop.simps) simp
    show ?thesis
      using fa am last
      by (subst (1 2 3) retryWithBackoff_loop.simps) simp
  qed
qed

text \<open>
  Claim C9: on failure \<open>retryWithBackoff\<close> makes a bounded number of attempts, by
  default 3, with a delay that starts at 5000 ms and doubles, and rethrows the last
  error. The default number of attempts is not 3: with the default options a call that
  always fails is made 4 times.
\<close>

theorem default_backoff_makes_four_attempts:
  "length (filter is_CallFn
     (fst (retryWithBackoff (\<lambda>_. Inl ''rpc down'' :: string + unit) default_options))) = 4"
  by (simp add: retryWithBackoff_def default_options_def retryWithBackoff_loop.simps
      and_then_def)

text \<open>
  Claim C9 as amended: when every call fails, \<open>retryWithBackoff\<close> makes
  \<open>maxRetries + 1\<close> attempts (by default 4: the first call and 3 retries), sleeps
  before each re-attempt for a delay that starts at \<open>retryDelay\<close> (by default 5000 ms)
  and doubles after every failed attempt, and then rethrows the last error.
\<close>

theorem backoff_attempts_and_delays:
  assumes "\<forall>k \<le> m. fn k = Inl (err k)"
    and "m = (case maxRetries opts of None \<Rightarrow> 3 | Some n \<Rightarrow> n)"
    and "d = (case retryDelay opts of None \<Rightarrow> 5000 | Some n \<Rightarrow> n)"
  shows "snd (retryWithBackoff fn opts) = Inl (Thrown (err m))
     \<and> length (filter is_CallFn (fst (retryWithBackoff fn opts))) = m + 1
     \<and> sleeps (fst (retryWithBackoff fn opts)) = map (\<lambda>k. d * 2 ^ k) [0..<m]"
  using retryWithBackoff_loop_all_fail[of 0 m fn err d "onRetry opts" None] assms
  by (simp add: retryWithBackoff_def)

theorem backoff_attempts_and_delays_witness:
  "snd (retryWithBackoff
          (\<lambda>k. Inl (if k = 3 then ''nonce too low'' else ''rpc down'') :: string + unit)
          default_options) = Inl (Thrown ''nonce too low'')
   \<and> sleeps (fst (retryWithBackoff
          (\<lambda>k. Inl (if k = 3 then ''nonce too low'' else ''rpc down'') :: string + unit)
          default_options)) = [5000, 10000, 20000]"
proof -
  let ?err = "\<lambda>k::nat. if k = 3 then ''nonce too low'' else ''rpc down''"
  have h: "\<forall>k \<le> 3. (\<lambda>k. Inl (?err k)) k = (Inl (?err k) :: string + unit)"
    by simp
  have u: "[0..<3] = [0, 1, 2]"
    by (simp add: upt_rec)
  show ?thesis
    using backoff_attempts_and_delays[OF h, of default_options 5000] u
    by (simp add: default_options_def)
qed

subsection \<open>One credential per address (claim C10)\<close>

text \<open>
  The two guards the claim names are in the code: \<open>mintCredential\<close> reverts for a
  recipient the index already knows, and the verifier's minting path returns without
  minting for one.
\<close>

lemma mintCredential_reverts_when_indexed:
  "addressToTokenId (nft w) to \<noteq> 0 \<Longrightarrow>
   \<exists>e. mintCredential hook w ts sender to age = Inl e"
  by (simp add: mintCredential_def)

lemma mintNFTCredential_skips_when_indexed:
  "nftContract (ver w) = nft_address w \<Longrightarrow> hasCredential (nft w) user \<Longrightarrow>
   mintNFTCredential hook w ts user = Inr ([], w)"
  by (simp add: mintNFTCredential_def)

text \<open>
  As long as recipients accept the token without calling back into the contracts,
  the guards do keep every address at one token at most: the bookkeeping invariant
  holds after deployment and every minting path preserves it.
\<close>

lemma one_credential_each_at_most_one:
  assumes "one_credential_each n" and "a \<noteq> 0"
  shows "balances n a \<le> 1"
    and "owners n t = a \<Longrightarrow> owners n t' = a \<Longrightarrow> t = t'"
proof -
  show "balances n a \<le> 1"
    using assms unfolding one_credential_each_def by (auto split: if_splits)
  show "t = t'" if "owners n t = a" "owners n t' = a"
    using assms that unfolding one_credential_each_def by metis
qed

lemma deployed_one_credential_each: "one_credential_each (nft deployed)"
  by (simp add: one_credential_each_def deployed_def)

lemma mintCredential_accepts_preserves:
  assumes "one_credential_each (nft w)"
    and "mintCredential accepts w ts sender to age = Inr (tid, logs, w')"
  shows "one_credential_each (nft w')"
proof -
  let ?n = "nft w"
  let ?c = "tokenIdCounter ?n"
  from assms(2) have g: "addressToTokenId ?n to = 0" "to \<noteq> 0"
    by (auto simp: mintCredential_def safeMint_def mint_token_def Let_def
        split: if_splits sum.splits)
  have inv: "1 \<le> ?c"
    "\<And>t. owners ?n t \<noteq> 0 \<Longrightarrow>
        t \<noteq> 0 \<and> t < ?c \<and> addressToTokenId ?n (owners ?n t) = t"
    "\<And>a. a \<noteq> 0 \<Longrightarrow> balances ?n a = (if \<exists>t. owners ?n t = a then 1 else 0)"
    using assms(1) unfolding one_credential_each_def by blast+
  have free: "owners ?n ?c = 0"
    using inv(2)[of ?c] by auto
  have noown: "\<And>t. owners ?n t \<noteq> to"
    using inv(2) g by metis
  have w': "nft w' = ?n\<lparr>tokenIdCounter := ?c + 1,
                 balances := (balances ?n)(to := balances ?n to + 1),
                 owners := (owners ?n)(?c := to),
                 encryptedAges := (encryptedAges ?n)(?c := age),
                 addressToTokenId := (addressToTokenId ?n)(to := ?c),
                 mintTimestamp := (mintTimestamp ?n)(?c := ts)\<rparr>"
    using assms(2) free g
    by (auto simp: mintCredential_def safeMint_def mint_token_def update_token_def accepts_def
        Let_def split: if_splits sum.splits)
  have b0: "balances ?n to = 0"
    using inv(3)[OF g(2)] noown by simp
  have c1: "1 \<le> tokenIdCounter (nft w')"
    unfolding w' by simp
  have c2: "t \<noteq> 0 \<and> t < tokenIdCounter (nft w')
              \<and> addressToTokenId (nft w') (owners (nft w') t) = t"
    if "owners (nft w') t \<noteq> 0" for t
  proof (cases "t = ?c")
    case True
    then show ?thesis using inv(1) unfolding w' by simp
  next
    case False
    then have o: "owners ?n t \<noteq> 0" using that unfolding w' by simp
    show ?thesis using False inv(2)[OF o] noown[of t] unfolding w' by simp
  qed
  have c3: "balances (nft w') a = (if \<exists>t. owners (nft w') t = a then 1 else 0)"
    if "a \<noteq> 0" for a
  proof (cases "a = to")
    case True
    have "owners (nft w') ?c = to" unfolding w' by simp
    then have "\<exists>t. owners (nft w') t = a" using True by blast
    then show ?thesis using True b0 unfolding w' by simp
  next
    case False
    have "(\<exists>t. owners (nft w') t = a) = (\<exists>t. owners ?n t = a)"
    proof
      assume "\<exists>t. owners (nft w') t = a"
      then obtain t where t: "owners (nft w') t = a" by blast
      then have "t \<noteq> ?c" using False unfolding w' by auto
      then show "\<exists>t. owners ?n t = a" using t unfolding w' by auto
    next
      assume "\<exists>t. owners ?n t = a"
      then obtain t where t: "owners ?n t = a" by blast
      then have "t \<noteq> ?c" using free that by auto
      then show "\<exists>t. owners (nft w') t = a" using t unfolding w' by auto
    qed
    then show ?thesis using False inv(3)[OF that] unfolding w' by simp
  qed
  show ?thesis
    unfolding one_credential_each_def using c1 c2 c3 by blast
qed

lemma mintNFTCredential_accepts_preserves:
  assumes "one_credential_each (nft w)"
    and "mintNFTCredential accepts w ts user = Inr (logs, w')"
  shows "one_credential_each (nft w')"
  using assms mintCredential_accepts_preserves
  by (auto simp: mintNFTCredential_def Let_def split: if_splits sum.splits)

lemma verifyAgeMock_accepts_preserves:
  assumes "one_credential_each (nft w)"
    and "verifyAgeMock accepts w ts sender age h = Inr (logs, w')"
  shows "one_credential_each (nft w')"
proof -
  let ?w1 = "w\<lparr>ver := (ver w)\<lparr>isVerified := (isVerified (ver w))(sender := 18 \<le> age),
                 userEncryptedAges := (userEncryptedAges (ver w))(sender := h)\<rparr>\<rparr>"
  have n1: "one_credential_each (nft ?w1)" using assms(1) by simp
  show ?thesis
  proof (cases "18 \<le> age \<and> nftContract (ver w) \<noteq> 0")
    case True
    then obtain l where "mintNFTCredential accepts ?w1 ts sender = Inr (l, w')"
      using assms(2) by (auto simp: verifyAgeMock_def Let_def split: sum.splits)
    then show ?thesis using mintNFTCredential_accepts_preserves[OF n1] by blast
  next
    case False
    then have "w' = ?w1" using assms(2) by (auto simp: verifyAgeMock_def Let_def)
    then show ?thesis using n1 by simp
  qed
qed

lemma callbackDecryption_accepts_preserves:
  assumes "one_credential_each (nft w)"
    and "callbackDecryption accepts w ts rid sigOk res = Inr (logs, w')"
  shows "one_credential_each (nft w')"
proof -
  let ?user = "requestIdToUser (ver w) rid"
  let ?v1 = "(ver w)\<lparr>isVerified := (isVerified (ver w))(?user := res)\<rparr>"
  let ?w1 = "w\<lparr>ver := ?v1\<lparr>decryptionRequests := (decryptionRequests ?v1)
                      (rid := (decryptionRequests ?v1 rid)\<lparr>processed := True\<rparr>)\<rparr>\<rparr>"
  have n1: "one_credential_each (nft ?w1)" using assms(1) by simp
  show ?thesis
  proof (cases "res \<and> nftContract (ver w) \<noteq> 0")
    case True
    then obtain l where "mintNFTCredential accepts ?w1 ts ?user = Inr (l, w')"
      using assms(2) by (auto simp: callbackDecryption_def Let_def split: if_splits sum.splits)
    then show ?thesis using mintNFTCredential_accepts_preserves[OF n1] by blast
  next
    case False
    then have "w' = ?w1"
      using assms(2) by (auto simp: callbackDecryption_def Let_def split: if_splits)
    then show ?thesis using n1 by simp
  qed
qed

lemma mintNFTManual_accepts_preserves:
  assumes "one_credential_each (nft w)"
    and "mintNFTManual accepts w ts sender = Inr (logs, w')"
  shows "one_credential_each (nft w')"
  using assms mintNFTCredential_accepts_preserves
  by (auto simp: mintNFTManual_def split: if_splits)

text \<open>
  Claim C10: every address holds at most one credential token, because
  \<open>mintCredential\<close> reverts for an address that has one and the verifier's minting path
  checks \<open>hasCredential\<close> first, so that repeated successful verifications never mint a
  second token. The code does not keep this for a recipient that is a contract:
  \<open>mintCredential\<close> records the recipient in the index only after \<open>_safeMint\<close> has
  called the recipient, and neither contract guards against re-entry. On the freshly
  deployed contracts, the contract at address 66 calls \<open>verifyAgeMock(20)\<close> and calls it
  again from its \<open>onERC721Received\<close>: both guards still see an empty index, and the
  call ends with tokens 1 and 2 both owned by 66, whose balance is 2.
\<close>

theorem reentrant_recipient_holds_two_credentials:
  "(case verifyAgeMock (reenters_verifyAgeMock 5000 66 20 9) deployed 5000 66 20 9 of
      Inl _ \<Rightarrow> False
    | Inr (logs, w) \<Rightarrow>
        balances (nft w) 66 = 2 \<and> owners (nft w) 1 = 66 \<and> owners (nft w) 2 = 66
        \<and> addressToTokenId (nft w) 66 = 1
        \<and> filter (\<lambda>e. e = NFTCredentialMinted 66 1 \<or> e = NFTCredentialMinted 66 2) logs
            = [NFTCredentialMinted 66 2, NFTCredentialMinted 66 1])"
  by (simp add: verifyAgeMock_def mintNFTCredential_def mintCredential_def safeMint_def
      mint_token_def update_token_def hasCredential_def accepts_def deployed_def
      initial_verifier_def reenters_verifyAgeMock_def Let_def)

end
